theory Spec2Isabelle
  imports Main
begin

section \<open>Errors\<close>

text \<open>
  Go errors are values. The constructors below are the errors the fetch pipeline creates
  itself (one per \<^verbatim>\<open>fmt.Errorf\<close> call of the source, the \<^verbatim>\<open>%w\<close> ones wrapping another
  error) and the two kinds of error it receives from the standard library: an error that
  has a \<^verbatim>\<open>net.Error\<close> in its chain, with the value of its \<^verbatim>\<open>Timeout()\<close>, and any other
  error.
\<close>

datatype error =
    NetError bool string
  | OpaqueError string
  | InvalidVersion string
  | InvalidBaseURL error
  | NotHTTPS string
  | NoHost
  | ConstructedInvalidURL error
  | UnexpectedOrigin string string string string
  | BuildingFetchURL error
  | ConfiguringLexiconURL error
  | ConfiguringSchemaDocsURL error
  | CreatingRequest error
  | ExecutingRequest error
  | BadStatus string int
  | ReadingBody error

text \<open>
  \<^verbatim>\<open>errors.As(err, &netErr) && netErr.Timeout()\<close>: the first \<^verbatim>\<open>net.Error\<close> found while
  unwrapping decides.
\<close>

fun is_net_timeout :: "error \<Rightarrow> bool" where
  "is_net_timeout (NetError t m) = t"
| "is_net_timeout (InvalidBaseURL e) = is_net_timeout e"
| "is_net_timeout (ConstructedInvalidURL e) = is_net_timeout e"
| "is_net_timeout (BuildingFetchURL e) = is_net_timeout e"
| "is_net_timeout (ConfiguringLexiconURL e) = is_net_timeout e"
| "is_net_timeout (ConfiguringSchemaDocsURL e) = is_net_timeout e"
| "is_net_timeout (CreatingRequest e) = is_net_timeout e"
| "is_net_timeout (ExecutingRequest e) = is_net_timeout e"
| "is_net_timeout (ReadingBody e) = is_net_timeout e"
| "is_net_timeout e = False"

section \<open>Regular expressions\<close>

text \<open>
  The part of Go's \<^verbatim>\<open>regexp\<close> syntax that \<^verbatim>\<open>validVersionPattern\<close> uses: literals, the
  classes \<^verbatim>\<open>\d\<close> and \<^verbatim>\<open>[\w.]\<close>, sequence, alternation, \<^verbatim>\<open>+\<close> and \<^verbatim>\<open>?\<close>. Both classes are
  ASCII-only in Go, so matching bytes is matching runes here. The pattern is anchored with
  \<^verbatim>\<open>^\<close> and \<^verbatim>\<open>$\<close> (no flags, so \<^verbatim>\<open>$\<close> is the end of the text): \<^verbatim>\<open>MatchString\<close> is a match
  of the whole string. The matcher computes Brzozowski derivatives.
\<close>

datatype cclass = Digit | WordOrDot

definition is_digit :: "char \<Rightarrow> bool" where
  "is_digit c = (c \<in> set ''0123456789'')"

definition is_word :: "char \<Rightarrow> bool" where
  "is_word c =
     (c \<in> set ''0123456789ABCDEFGHIJKLMNOPQRSTUVWXYZ_abcdefghijklmnopqrstuvwxyz'')"

fun in_class :: "cclass \<Rightarrow> char \<Rightarrow> bool" where
  "in_class Digit c = is_digit c"
| "in_class WordOrDot c = (is_word c \<or> c = CHR ''.'')"

datatype rexp =
    Zero | One | Chr char | Class cclass
  | Seq rexp rexp | Alt rexp rexp | Star rexp | Plus rexp | Opt rexp

fun nullable :: "rexp \<Rightarrow> bool" where
  "nullable Zero = False"
| "nullable One = True"
| "nullable (Chr c) = False"
| "nullable (Class k) = False"
| "nullable (Seq r s) = (nullable r \<and> nullable s)"
| "nullable (Alt r s) = (nullable r \<or> nullable s)"
| "nullable (Star r) = True"
| "nullable (Plus r) = nullable r"
| "nullable (Opt r) = True"

fun deriv :: "char \<Rightarrow> rexp \<Rightarrow> rexp" where
  "deriv c Zero = Zero"
| "deriv c One = Zero"
| "deriv c (Chr d) = (if c = d then One else Zero)"
| "deriv c (Class k) = (if in_class k c then One else Zero)"
| "deriv c (Seq r s) =
     (if nullable r then Alt (Seq (deriv c r) s) (deriv c s) else Seq (deriv c r) s)"
| "deriv c (Alt r s) = Alt (deriv c r) (deriv c s)"
| "deriv c (Star r) = Seq (deriv c r) (Star r)"
| "deriv c (Plus r) = Seq (deriv c r) (Star r)"
| "deriv c (Opt r) = deriv c r"

fun MatchString :: "rexp \<Rightarrow> string \<Rightarrow> bool" where
  "MatchString r [] = nullable r"
| "MatchString r (c # cs) = MatchString (deriv c r) cs"

fun Str :: "string \<Rightarrow> rexp" where
  "Str [] = One"
| "Str (c # cs) = Seq (Chr c) (Str cs)"

text \<open>The languages the expressions denote, to state what the matcher accepts.\<close>

definition conc :: "string set \<Rightarrow> string set \<Rightarrow> string set" where
  "conc A B = {u @ v | u v. u \<in> A \<and> v \<in> B}"

inductive_set star :: "string set \<Rightarrow> string set" for A :: "string set" where
  star_nil: "[] \<in> star A"
| star_app: "u \<in> A \<Longrightarrow> v \<in> star A \<Longrightarrow> u @ v \<in> star A"

fun lang :: "rexp \<Rightarrow> string set" where
  "lang Zero = {}"
| "lang One = {[]}"
| "lang (Chr c) = {[c]}"
| "lang (Class k) = {[c] | c. in_class k c}"
| "lang (Seq r s) = conc (lang r) (lang s)"
| "lang (Alt r s) = lang r \<union> lang s"
| "lang (Star r) = star (lang r)"
| "lang (Plus r) = conc (lang r) (star (lang r))"
| "lang (Opt r) = insert [] (lang r)"

section \<open>Version Validator\<close>

text \<open>
  \<^verbatim>\<open>regexp.MustCompile(`^(v\d+\.\d+\.\d+(-[\w.]+)?|latest)$`)\<close>
\<close>

definition validVersionPattern :: rexp where
  "validVersionPattern =
     Alt (Seq (Chr CHR ''v'')
         (Seq (Plus (Class Digit))
         (Seq (Chr CHR ''.'')
         (Seq (Plus (Class Digit))
         (Seq (Chr CHR ''.'')
         (Seq (Plus (Class Digit))
              (Opt (Seq (Chr CHR ''-'') (Plus (Class WordOrDot))))))))))
         (Str ''latest'')"

text \<open>\<^verbatim>\<open>ValidateVersion\<close>: \<open>None\<close> is Go's nil error.\<close>

definition ValidateVersion :: "string \<Rightarrow> error option" where
  "ValidateVersion version =
     (if \<not> MatchString validVersionPattern version then Some (InvalidVersion version)
      else None)"

text \<open>
  The accepted versions in the specification's words: \<^verbatim>\<open>v<major>.<minor>.<patch>\<close>,
  optionally followed by a hyphen and a non-empty tag of word characters and dots, or the
  literal \<^verbatim>\<open>latest\<close>.
\<close>

definition digits :: "string \<Rightarrow> bool" where
  "digits a \<longleftrightarrow> a \<noteq> [] \<and> list_all is_digit a"

definition prerelease_tag :: "string \<Rightarrow> bool" where
  "prerelease_tag t \<longleftrightarrow> t \<noteq> [] \<and> list_all (\<lambda>c. is_word c \<or> c = CHR ''.'') t"

definition semver_like :: "string \<Rightarrow> bool" where
  "semver_like s \<longleftrightarrow>
     (\<exists>a b c. digits a \<and> digits b \<and> digits c \<and>
        (s = ''v'' @ a @ ''.'' @ b @ ''.'' @ c \<or>
         (\<exists>t. prerelease_tag t \<and> s = ''v'' @ a @ ''.'' @ b @ ''.'' @ c @ ''-'' @ t)))"

definition spec_accepts_version :: "string \<Rightarrow> bool" where
  "spec_accepts_version s \<longleftrightarrow> semver_like s \<or> s = ''latest''"

text \<open>The first alternative of the pattern, and the characters an accepted version is made of.\<close>

definition semver_re :: rexp where
  "semver_re = Seq (Chr CHR ''v'')
         (Seq (Plus (Class Digit))
         (Seq (Chr CHR ''.'')
         (Seq (Plus (Class Digit))
         (Seq (Chr CHR ''.'')
         (Seq (Plus (Class Digit))
              (Opt (Seq (Chr CHR ''-'') (Plus (Class WordOrDot)))))))))"

definition version_char :: "char \<Rightarrow> bool" where
  "version_char c \<longleftrightarrow> is_word c \<or> c = CHR ''.'' \<or> c = CHR ''-''"

section \<open>URL Builder\<close>

text \<open>
  \<^verbatim>\<open>net/url\<close> belongs to Go's standard library, not to this repository: \<^verbatim>\<open>url.Parse\<close> and
  \<^verbatim>\<open>(*url.URL).String\<close> are parameters of the model. Of a parsed URL the builder reads the
  scheme and the host only.
\<close>

record url =
  Scheme :: string
  Host :: string
  Rest :: string

record net_url =
  url_Parse :: "string \<Rightarrow> error + url"
  url_String :: "url \<Rightarrow> string"

record URLBuilder =
  base :: url
  suffix :: string

definition NewURLBuilder :: "net_url \<Rightarrow> string \<Rightarrow> string \<Rightarrow> error + URLBuilder" where
  "NewURLBuilder U baseURL sfx =
     (case url_Parse U baseURL of
        Inl err \<Rightarrow> Inl (InvalidBaseURL err)
      | Inr u \<Rightarrow>
          if Scheme u \<noteq> ''https'' then Inl (NotHTTPS (Scheme u))
          else if Host u = '''' then Inl NoHost
          else Inr \<lparr>base = u, suffix = sfx\<rparr>)"

definition Build :: "net_url \<Rightarrow> URLBuilder \<Rightarrow> string \<Rightarrow> error + string" where
  "Build U b version =
     (case ValidateVersion version of
        Some err \<Rightarrow> Inl err
      | None \<Rightarrow>
          (let raw = url_String U (base b) @ version @ suffix b in
           case url_Parse U raw of
             Inl err \<Rightarrow> Inl (ConstructedInvalidURL err)
           | Inr result \<Rightarrow>
               if Scheme result \<noteq> Scheme (base b) \<or> Host result \<noteq> Host (base b)
               then Inl (UnexpectedOrigin (Scheme result) (Host result)
                           (Scheme (base b)) (Host (base b)))
               else Inr (url_String U result)))"

section \<open>Retrying Transport\<close>

text \<open>
  Of an HTTP response the pipeline reads the status code, the \<^verbatim>\<open>Retry-After\<close> header
  (\<^verbatim>\<open>Header.Get\<close> gives the empty string when it is absent) and the body. The body is a
  stream: its bytes, then the end of the stream or a read error.
\<close>

record reader =
  content :: string
  failure :: "error option"

record response =
  StatusCode :: int
  RetryAfterHeader :: string
  Body :: reader

text \<open>
  \<^verbatim>\<open>isRetryable(resp, err)\<close> returns \<^verbatim>\<open>(bool, error)\<close>. An \<^verbatim>\<open>http.RoundTripper\<close> returns either
  a response or an error, never both and never neither: an outcome is a sum, \<open>Inl\<close> the
  error.
\<close>

definition isRetryable :: "error + response \<Rightarrow> bool \<times> error option" where
  "isRetryable outcome =
     (case outcome of
        Inl err \<Rightarrow> if is_net_timeout err then (True, None) else (False, Some err)
      | Inr resp \<Rightarrow>
          if StatusCode resp = 408 \<or> StatusCode resp = 429 then (True, None)
          else if StatusCode resp = 0 \<or> StatusCode resp \<ge> 500 then (True, None)
          else (False, None))"

text \<open>
  \<^verbatim>\<open>strconv.ParseInt(v, 10, 64)\<close> with its error dropped, as \<^verbatim>\<open>retryAfter\<close> calls it: an
  optional sign and decimal digits; 0 on a syntax error, the nearest bound of int64 when
  out of range.
\<close>

definition digit_val :: "char \<Rightarrow> int" where
  "digit_val c = int (of_char c) - 48"

definition ParseInt :: "string \<Rightarrow> int" where
  "ParseInt v =
     (let neg = (v \<noteq> [] \<and> hd v = CHR ''-'');
          ds = (if v \<noteq> [] \<and> (hd v = CHR ''+'' \<or> hd v = CHR ''-'') then tl v else v)
      in if ds = [] \<or> \<not> list_all is_digit ds then 0
         else (let un = foldl (\<lambda>a c. 10 * a + digit_val c) 0 ds
               in if \<not> neg \<and> un \<ge> 2 ^ 63 then 2 ^ 63 - 1
                  else if neg \<and> un > 2 ^ 63 then - (2 ^ 63)
                  else if neg then - un else un))"

text \<open>Durations are int64 nanoseconds; the multiplication wraps.\<close>

definition wrap64 :: "int \<Rightarrow> int" where
  "wrap64 x = (x + 2 ^ 63) mod 2 ^ 64 - 2 ^ 63"

definition Second :: int where
  "Second = 1000000000"

definition retryAfter :: "response option \<Rightarrow> int" where
  "retryAfter resp =
     (case resp of
        None \<Rightarrow> 0
      | Some r \<Rightarrow>
          (let v = RetryAfterHeader r in
           if v \<noteq> [] then
             (let seconds = ParseInt v in
              if seconds > 0 then wrap64 (seconds * Second) else 0)
           else 0))"

record retryTransport =
  maxRetry :: int
  wait :: int

definition newRetryTransport :: retryTransport where
  "newRetryTransport = \<lparr>maxRetry = 3, wait = 1 * Second\<rparr>"

text \<open>
  A request as the transport sees it: its body, if it has one, and the function that
  rebuilds the body for a retry, if one was supplied (its result can differ from call to
  call, so it takes the attempt).
\<close>

record request =
  ReqBody :: "string option"
  GetBody :: "(nat \<Rightarrow> error + string) option"

text \<open>
  What surrounds a \<^verbatim>\<open>RoundTrip\<close> call: the outcome of the \<open>i\<close>-th call of
  \<^verbatim>\<open>http.DefaultTransport.RoundTrip\<close>, whether the \<^verbatim>\<open>select\<close> after attempt \<open>i\<close> takes the
  \<^verbatim>\<open>ctx.Done()\<close> branch, and \<^verbatim>\<open>ctx.Err()\<close>.
\<close>

record rt_env =
  transport :: "nat \<Rightarrow> request \<Rightarrow> error + response"
  ctxDone :: "nat \<Rightarrow> bool"
  ctxErr :: error

datatype event = CloseBody nat | Sleep int

record rt_result =
  rt_resp :: "response option"
  rt_err :: "error option"
  rt_attempts :: nat
  rt_trace :: "event list"

definition returns :: "error + response \<Rightarrow> nat \<Rightarrow> event list \<Rightarrow> rt_result" where
  "returns outcome attempt tr =
     (case outcome of
        Inl e \<Rightarrow> \<lparr>rt_resp = None, rt_err = Some e, rt_attempts = Suc attempt, rt_trace = tr\<rparr>
      | Inr r \<Rightarrow> \<lparr>rt_resp = Some r, rt_err = None, rt_attempts = Suc attempt, rt_trace = tr\<rparr>)"

definition respOf :: "error + response \<Rightarrow> response option" where
  "respOf outcome = (case outcome of Inl e \<Rightarrow> None | Inr r \<Rightarrow> Some r)"

definition closeBody :: "error + response \<Rightarrow> nat \<Rightarrow> event list" where
  "closeBody outcome attempt = (case outcome of Inl e \<Rightarrow> [] | Inr r \<Rightarrow> [CloseBody attempt])"

text \<open>
  The body step of the loop: \<open>None\<close> when the request has a body that cannot be rebuilt
  (the loop then returns the current outcome), otherwise the request to retry with.
\<close>

definition rebuildBody :: "request \<Rightarrow> nat \<Rightarrow> request option" where
  "rebuildBody req attempt =
     (case ReqBody req of
        None \<Rightarrow> Some req
      | Some b \<Rightarrow>
          (case GetBody req of
             None \<Rightarrow> None
           | Some g \<Rightarrow>
               (case g attempt of
                  Inl err \<Rightarrow> None
                | Inr body \<Rightarrow> Some (req\<lparr>ReqBody := Some body\<rparr>))))"

text \<open>
  The loop of \<^verbatim>\<open>RoundTrip\<close>, \<^verbatim>\<open>for attempt := 0; ; attempt++\<close>. The number of attempts made
  is the index of the last one plus one. The trace records the bodies closed and the
  waits slept.
\<close>

function RoundTrip_loop ::
  "retryTransport \<Rightarrow> rt_env \<Rightarrow> request \<Rightarrow> nat \<Rightarrow> event list \<Rightarrow> rt_result" where
  "RoundTrip_loop t E req attempt tr =
     (let outcome = transport E attempt req in
      if int attempt \<ge> maxRetry t then returns outcome attempt tr
      else
        (case isRetryable outcome of
           (shouldRetry, Some retryErr) \<Rightarrow>
             \<lparr>rt_resp = None, rt_err = Some retryErr, rt_attempts = Suc attempt,
              rt_trace = tr @ closeBody outcome attempt\<rparr>
         | (shouldRetry, None) \<Rightarrow>
             if \<not> shouldRetry then returns outcome attempt tr
             else
               (case rebuildBody req attempt of
                  None \<Rightarrow> returns outcome attempt tr
                | Some req' \<Rightarrow>
                    (let tr1 = tr @ closeBody outcome attempt;
                         w = (if retryAfter (respOf outcome) > 0
                              then retryAfter (respOf outcome) else wait t)
                     in if ctxDone E attempt
                        then \<lparr>rt_resp = None, rt_err = Some (ctxErr E),
                              rt_attempts = Suc attempt, rt_trace = tr1\<rparr>
                        else RoundTrip_loop t E req' (Suc attempt) (tr1 @ [Sleep w])))))"
  by pat_completeness auto
termination
  by (relation "measure (\<lambda>(t, E, req, attempt, tr). nat (maxRetry t) - attempt)") auto

declare RoundTrip_loop.simps [simp del]

definition RoundTrip :: "retryTransport \<Rightarrow> rt_env \<Rightarrow> request \<Rightarrow> rt_result" where
  "RoundTrip t E req = RoundTrip_loop t E req 0 []"

text \<open>
  The outcomes that make the loop go on when attempts remain: \<^verbatim>\<open>isRetryable\<close> answers
  \<^verbatim>\<open>(true, nil)\<close>.
\<close>

definition retryable :: "error + response \<Rightarrow> bool" where
  "retryable outcome \<longleftrightarrow> isRetryable outcome = (True, None)"

text \<open>
  The request each attempt is made with: the body is rebuilt before every retry.
\<close>

fun req_at :: "request \<Rightarrow> nat \<Rightarrow> request" where
  "req_at req 0 = req"
| "req_at req (Suc k) =
     (case rebuildBody (req_at req k) k of None \<Rightarrow> req_at req k | Some req' \<Rightarrow> req')"

text \<open>
  The wait the loop computes after an attempt, and the trace of \<open>k\<close> full rounds: after
  each attempt the body closed (if there was a response) and the wait slept to its end.
  \<open>sleeps\<close> reads the waits that were slept to their end off a trace.
\<close>

definition nextWait :: "retryTransport \<Rightarrow> error + response \<Rightarrow> int" where
  "nextWait t outcome =
     (if retryAfter (respOf outcome) > 0 then retryAfter (respOf outcome) else wait t)"

fun rounds :: "retryTransport \<Rightarrow> rt_env \<Rightarrow> request \<Rightarrow> nat \<Rightarrow> event list" where
  "rounds t E req 0 = []"
| "rounds t E req (Suc k) =
     rounds t E req k @ closeBody (transport E k (req_at req k)) k @
     [Sleep (nextWait t (transport E k (req_at req k)))]"

fun sleeps :: "event list \<Rightarrow> int list" where
  "sleeps [] = []"
| "sleeps (Sleep d # es) = d # sleeps es"
| "sleeps (CloseBody i # es) = sleeps es"

text \<open>The error of an outcome, as \<open>respOf\<close> is its response.\<close>

definition errOf :: "error + response \<Rightarrow> error option" where
  "errOf outcome = (case outcome of Inl e \<Rightarrow> Some e | Inr r \<Rightarrow> None)"

text \<open>The status codes \<^verbatim>\<open>isRetryable\<close> answers \<^verbatim>\<open>true\<close> for.\<close>

definition retryable_status :: "int \<Rightarrow> bool" where
  "retryable_status code \<longleftrightarrow> code = 408 \<or> code = 429 \<or> code = 0 \<or> code \<ge> 500"

text \<open>
  Concrete transports, requests and surroundings, after the repository's tests
  (\<^verbatim>\<open>TestRetryTransport_ExhaustsRetries\<close> has \<^verbatim>\<open>maxRetry: 2\<close> and a server that always
  answers 503; \<^verbatim>\<open>TestIsRetryable\<close> has a DNS timeout and \<^verbatim>\<open>io.ErrUnexpectedEOF\<close>).
\<close>

definition twoRetries :: retryTransport where
  "twoRetries = \<lparr>maxRetry = 2, wait = 1000000\<rparr>"

definition getRequest :: request where
  "getRequest = \<lparr>ReqBody = None, GetBody = None\<rparr>"

definition postRequest :: request where
  "postRequest = \<lparr>ReqBody = Some ''payload'', GetBody = None\<rparr>"

definition resp503 :: response where
  "resp503 = \<lparr>StatusCode = 503, RetryAfterHeader = [], Body = \<lparr>content = [], failure = None\<rparr>\<rparr>"

definition resp404 :: response where
  "resp404 = \<lparr>StatusCode = 404, RetryAfterHeader = [], Body = \<lparr>content = [], failure = None\<rparr>\<rparr>"

definition timeoutErr :: error where
  "timeoutErr = NetError True ''i/o timeout''"

definition brokenPipe :: error where
  "brokenPipe = OpaqueError ''unexpected EOF''"

definition always503 :: rt_env where
  "always503 = \<lparr>transport = (\<lambda>i req. Inr resp503), ctxDone = (\<lambda>i. False),
                 ctxErr = OpaqueError ''context canceled''\<rparr>"

definition always404 :: rt_env where
  "always404 = \<lparr>transport = (\<lambda>i req. Inr resp404), ctxDone = (\<lambda>i. False),
                 ctxErr = OpaqueError ''context canceled''\<rparr>"

definition alwaysTimeout :: rt_env where
  "alwaysTimeout = \<lparr>transport = (\<lambda>i req. Inl timeoutErr), ctxDone = (\<lambda>i. False),
                 ctxErr = OpaqueError ''context canceled''\<rparr>"

definition alwaysBroken :: rt_env where
  "alwaysBroken = \<lparr>transport = (\<lambda>i req. Inl brokenPipe), ctxDone = (\<lambda>i. False),
                 ctxErr = OpaqueError ''context canceled''\<rparr>"

definition timeoutsThen503 :: rt_env where
  "timeoutsThen503 =
     \<lparr>transport = (\<lambda>i req. if i < 2 then Inl timeoutErr else Inr resp503),
      ctxDone = (\<lambda>i. False), ctxErr = OpaqueError ''context canceled''\<rparr>"

definition cancelledAfterSecond :: rt_env where
  "cancelledAfterSecond = \<lparr>transport = (\<lambda>i req. Inr resp503), ctxDone = (\<lambda>i. i = 1),
                 ctxErr = OpaqueError ''context canceled''\<rparr>"

section \<open>Bounded Fetcher\<close>

definition defaultMaxResponseBytes :: int where
  "defaultMaxResponseBytes = 4 * 1024 * 1024"

record HTTPFetcher =
  fetchURL :: string
  MaxResponseBytes :: int

definition NewHTTPFetcher :: "net_url \<Rightarrow> URLBuilder \<Rightarrow> string \<Rightarrow> error + HTTPFetcher" where
  "NewHTTPFetcher U builder version =
     (case Build U builder version of
        Inl err \<Rightarrow> Inl (BuildingFetchURL err)
      | Inr u \<Rightarrow> Inr \<lparr>fetchURL = u, MaxResponseBytes = 0\<rparr>)"

definition URL :: "HTTPFetcher \<Rightarrow> string" where
  "URL f = fetchURL f"

text \<open>
  \<^verbatim>\<open>io.LimitReader(r, n)\<close> ends the stream after \<open>n\<close> bytes, without reading further;
  \<^verbatim>\<open>io.ReadAll\<close> returns the bytes up to the end of the stream, or the read error.
\<close>

definition LimitReader :: "reader \<Rightarrow> int \<Rightarrow> reader" where
  "LimitReader r n =
     (if int (length (content r)) \<ge> n
      then \<lparr>content = take (nat n) (content r), failure = None\<rparr>
      else r)"

definition ReadAll :: "reader \<Rightarrow> error + string" where
  "ReadAll r = (case failure r of Some err \<Rightarrow> Inl err | None \<Rightarrow> Inr (content r))"

definition limitReader :: "reader \<Rightarrow> int \<Rightarrow> reader" where
  "limitReader r n = LimitReader r (if n \<le> 0 then defaultMaxResponseBytes else n)"

text \<open>
  The network as \<^verbatim>\<open>Fetch\<close> uses it: \<^verbatim>\<open>http.NewRequestWithContext\<close> on the URL, and
  \<^verbatim>\<open>defaultClient.Do\<close>.
\<close>

record http_env =
  NewRequest :: "string \<Rightarrow> error option"
  Do :: "string \<Rightarrow> error + response"

definition HTTPFetcher_Fetch :: "http_env \<Rightarrow> HTTPFetcher \<Rightarrow> error + (string \<times> string)" where
  "HTTPFetcher_Fetch H f =
     (case NewRequest H (fetchURL f) of
        Some err \<Rightarrow> Inl (CreatingRequest err)
      | None \<Rightarrow>
          (case Do H (fetchURL f) of
             Inl err \<Rightarrow> Inl (ExecutingRequest err)
           | Inr resp \<Rightarrow>
               if StatusCode resp \<noteq> 200 then Inl (BadStatus (fetchURL f) (StatusCode resp))
               else
                 (case ReadAll (limitReader (Body resp) (MaxResponseBytes f)) of
                    Inl err \<Rightarrow> Inl (ReadingBody err)
                  | Inr body \<Rightarrow> Inr (body, fetchURL f))))"

section \<open>TTL Cache\<close>

text \<open>
  Modelled from the spec: the type \<^verbatim>\<open>Cache\<close> with \<^verbatim>\<open>NewCache\<close>, \<^verbatim>\<open>Get\<close> and \<^verbatim>\<open>Set\<close>, whose
  source file is not among the sources. The specification: a mapping from a source key to
  (payload, source identifier, insertion time); \<^verbatim>\<open>get\<close> returns a hit only if an entry
  exists for the key and its age (now - inserted-at) is strictly less than the configured
  TTL, and removes nothing; \<^verbatim>\<open>set\<close> unconditionally stores or overwrites the entry for the
  key with the current timestamp. Times and durations are integers (nanoseconds); the
  current time is an argument.
\<close>

record entry =
  payload :: string
  sourceID :: string
  insertedAt :: int

record Cache =
  ttl :: int
  entries :: "string \<rightharpoonup> entry"

text \<open>
  Modelled from the spec: \<^verbatim>\<open>NewCache\<close>, an empty cache with the configured TTL.
\<close>

definition NewCache :: "int \<Rightarrow> Cache" where
  "NewCache d = \<lparr>ttl = d, entries = Map.empty\<rparr>"

text \<open>
  Modelled from the spec: \<^verbatim>\<open>get(key) -> (bytes, sourceIdentifier, found)\<close>, a hit only if
  an entry exists for the key and now - inserted-at is strictly less than the TTL; an
  expired entry is reported as not found and is not removed.
\<close>

definition Cache_Get :: "Cache \<Rightarrow> int \<Rightarrow> string \<Rightarrow> string \<times> string \<times> bool" where
  "Cache_Get c now key =
     (case entries c key of
        None \<Rightarrow> ([], [], False)
      | Some e \<Rightarrow>
          if now - insertedAt e < ttl c then (payload e, sourceID e, True)
          else ([], [], False))"

text \<open>
  Modelled from the spec: \<^verbatim>\<open>set(key, bytes, sourceIdentifier)\<close>, which unconditionally
  stores or overwrites the entry for the key with the current timestamp.
\<close>

definition Cache_Set :: "Cache \<Rightarrow> int \<Rightarrow> string \<Rightarrow> string \<Rightarrow> string \<Rightarrow> Cache" where
  "Cache_Set c now key data src =
     c\<lparr>entries := (entries c)(key \<mapsto> \<lparr>payload = data, sourceID = src, insertedAt = now\<rparr>)\<rparr>"

section \<open>Cached Fetcher\<close>

text \<open>
  The \<^verbatim>\<open>Fetcher\<close> interface: what the \<open>n\<close>-th call of \<^verbatim>\<open>Fetch\<close> on the wrapped fetcher
  returns, and how long it takes. The cache is shared and mutable: it lives in the state,
  with the clock and the number of calls made to wrapped fetchers.
\<close>

type_synonym Fetcher = "nat \<Rightarrow> (error + (string \<times> string)) \<times> int"

record world =
  cache :: Cache
  clock :: int
  calls :: nat

record CachedFetcher =
  fetcher :: Fetcher
  source :: string

definition NewCachedFetcher :: "Fetcher \<Rightarrow> string \<Rightarrow> CachedFetcher" where
  "NewCachedFetcher f src = \<lparr>fetcher = f, source = src\<rparr>"

definition CachedFetcher_Fetch ::
  "CachedFetcher \<Rightarrow> bool \<Rightarrow> world \<Rightarrow> (error + (string \<times> string)) \<times> world" where
  "CachedFetcher_Fetch c refresh w =
     (case (if \<not> refresh
            then (case Cache_Get (cache w) (clock w) (source c) of
                    (cachedData, cachedSource, found) \<Rightarrow>
                      if found then Some (cachedData, cachedSource) else None)
            else None) of
        Some hit \<Rightarrow> (Inr hit, w)
      | None \<Rightarrow>
          (case fetcher c (calls w) of
             (res, took) \<Rightarrow>
               (let w1 = w\<lparr>calls := Suc (calls w), clock := clock w + took\<rparr> in
                case res of
                  Inl err \<Rightarrow> (Inl err, w1)
                | Inr (data, srcID) \<Rightarrow>
                    (Inr (data, srcID),
                     w1\<lparr>cache := Cache_Set (cache w1) (clock w1) (source c) data srcID\<rparr>))))"

section \<open>Tool modes\<close>

definition defaultSchemaVersion :: string where
  "defaultSchemaVersion = ''latest''"

definition defaultLexiconVersion :: string where
  "defaultLexiconVersion = ''v0.19.1''"

definition lexiconBaseURL :: string where
  "lexiconBaseURL = ''https://raw.githubusercontent.com/gemaraproj/gemara/''"

definition lexiconPathSuffix :: string where
  "lexiconPathSuffix = ''/docs/lexicon.yaml''"

definition schemaDocsBaseURL :: string where
  "schemaDocsBaseURL = ''https://registry.cue.works/docs/github.com/gemaraproj/gemara@''"

record AdvisoryMode =
  lexiconURLBuilder :: URLBuilder
  schemaDocsURLBuilder :: URLBuilder

definition NewAdvisoryMode :: "net_url \<Rightarrow> error + AdvisoryMode" where
  "NewAdvisoryMode U =
     (case NewURLBuilder U lexiconBaseURL lexiconPathSuffix of
        Inl err \<Rightarrow> Inl (ConfiguringLexiconURL err)
      | Inr lexBuilder \<Rightarrow>
          (case NewURLBuilder U schemaDocsBaseURL [] of
             Inl err \<Rightarrow> Inl (ConfiguringSchemaDocsURL err)
           | Inr schemaBuilder \<Rightarrow>
               Inr \<lparr>lexiconURLBuilder = lexBuilder, schemaDocsURLBuilder = schemaBuilder\<rparr>))"

text \<open>
  The tool inputs; of them the wrappers read the version. \<^verbatim>\<open>GetLexicon\<close> and
  \<^verbatim>\<open>GetSchemaDocs\<close>, which the wrappers end in, are not among the sources: they are
  parameters, as is the way an \<^verbatim>\<open>HTTPFetcher\<close> reaches the network.
\<close>

record InputGetLexicon =
  Version :: string

record InputGetSchemaDocs =
  Version :: string

definition getLexicon ::
  "net_url \<Rightarrow> (HTTPFetcher \<Rightarrow> Fetcher) \<Rightarrow>
   (InputGetLexicon \<Rightarrow> CachedFetcher \<Rightarrow> world \<Rightarrow> (error + 'r) \<times> world) \<Rightarrow>
   AdvisoryMode \<Rightarrow> InputGetLexicon \<Rightarrow> world \<Rightarrow> (error + 'r) \<times> world" where
  "getLexicon U net GetLexicon a input w =
     (let version = (if InputGetLexicon.Version input = [] then defaultLexiconVersion
                     else InputGetLexicon.Version input) in
      case NewHTTPFetcher U (lexiconURLBuilder a) version of
        Inl err \<Rightarrow> (Inl err, w)
      | Inr f \<Rightarrow> GetLexicon input (NewCachedFetcher (net f) (URL f)) w)"

definition getSchemaDocs ::
  "net_url \<Rightarrow> (HTTPFetcher \<Rightarrow> Fetcher) \<Rightarrow>
   (InputGetSchemaDocs \<Rightarrow> CachedFetcher \<Rightarrow> world \<Rightarrow> (error + 'r) \<times> world) \<Rightarrow>
   AdvisoryMode \<Rightarrow> InputGetSchemaDocs \<Rightarrow> world \<Rightarrow> (error + 'r) \<times> world" where
  "getSchemaDocs U net GetSchemaDocs a input w =
     (let version = (if InputGetSchemaDocs.Version input = [] then defaultSchemaVersion
                     else InputGetSchemaDocs.Version input) in
      case NewHTTPFetcher U (schemaDocsURLBuilder a) version of
        Inl err \<Rightarrow> (Inl err, w)
      | Inr f \<Rightarrow> GetSchemaDocs input (NewCachedFetcher (net f) (URL f)) w)"

section \<open>Sample surroundings\<close>

text \<open>
  A small stand-in for \<^verbatim>\<open>net/url\<close> on URLs of the shape \<^verbatim>\<open>scheme://host/rest\<close>, to run the
  builder on the URLs of the repository's tests: a string without \<^verbatim>\<open>://\<close> after its first
  colon parses as a bare path, as \<^verbatim>\<open>example.com/path\<close> does in \<^verbatim>\<open>TestNewURLBuilder\<close>.
\<close>

definition sampleParse :: "string \<Rightarrow> error + url" where
  "sampleParse s =
     (let sch = takeWhile (\<lambda>c. c \<noteq> CHR '':'') s;
          after = dropWhile (\<lambda>c. c \<noteq> CHR '':'') s
      in if take 3 after = ''://''
         then Inr \<lparr>Scheme = sch,
                   Host = takeWhile (\<lambda>c. c \<noteq> CHR ''/'') (drop 3 after),
                   Rest = dropWhile (\<lambda>c. c \<noteq> CHR ''/'') (drop 3 after)\<rparr>
         else Inr \<lparr>Scheme = [], Host = [], Rest = s\<rparr>)"

definition sampleString :: "url \<Rightarrow> string" where
  "sampleString u = (if Scheme u = [] then Rest u else Scheme u @ ''://'' @ Host u @ Rest u)"

definition sampleURL :: net_url where
  "sampleURL = \<lparr>url_Parse = sampleParse, url_String = sampleString\<rparr>"

definition exampleBuilder :: URLBuilder where
  "exampleBuilder =
     \<lparr>base = \<lparr>Scheme = ''https'', Host = ''example.com'', Rest = ''/a/''\<rparr>,
      suffix = ''/b.yaml''\<rparr>"

text \<open>
  A parser that resolves every string to another host; no URL library does this, it is
  here to run the origin check of \<^verbatim>\<open>Build\<close> on its failing branch.
\<close>

definition strayURL :: net_url where
  "strayURL =
     \<lparr>url_Parse = (\<lambda>s. Inr \<lparr>Scheme = ''https'', Host = ''evil.example'', Rest = s\<rparr>),
      url_String = sampleString\<rparr>"

text \<open>
  A tool body that fetches through the cached fetcher it is given, without refresh, and
  a network on which every fetch succeeds with the same document after one second.
\<close>

definition fetchTool ::
  "'i \<Rightarrow> CachedFetcher \<Rightarrow> world \<Rightarrow> (error + (string \<times> string)) \<times> world" where
  "fetchTool input cf w = CachedFetcher_Fetch cf False w"

definition sampleNet :: "HTTPFetcher \<Rightarrow> Fetcher" where
  "sampleNet f = (\<lambda>n. (Inr (''terms: []'', fetchURL f), 1000000000))"

definition failingNet :: "HTTPFetcher \<Rightarrow> Fetcher" where
  "failingNet f = (\<lambda>n. (Inl (ExecutingRequest (OpaqueError ''connection refused'')), 1000000000))"

definition sampleMode :: AdvisoryMode where
  "sampleMode =
     \<lparr>lexiconURLBuilder =
        \<lparr>base = \<lparr>Scheme = ''https'', Host = ''raw.githubusercontent.com'',
                  Rest = ''/gemaraproj/gemara/''\<rparr>,
         suffix = lexiconPathSuffix\<rparr>,
      schemaDocsURLBuilder =
        \<lparr>base = \<lparr>Scheme = ''https'', Host = ''registry.cue.works'',
                  Rest = ''/docs/github.com/gemaraproj/gemara@''\<rparr>,
         suffix = []\<rparr>\<rparr>"

definition emptyWorld :: world where
  "emptyWorld = \<lparr>cache = NewCache 3600000000000, clock = 0, calls = 0\<rparr>"

definition warmWorld :: world where
  "warmWorld =
     \<lparr>cache = Cache_Set (NewCache 3600000000000) 0 ''https://example.com/a/v1.2.3/b.yaml''
                ''cached'' ''https://example.com/a/v1.2.3/b.yaml'',
      clock = 5, calls = 1\<rparr>"

definition staleWorld :: world where
  "staleWorld = warmWorld\<lparr>clock := 3600000000000\<rparr>"

definition exampleFetcher :: HTTPFetcher where
  "exampleFetcher = \<lparr>fetchURL = ''https://example.com/a/v1.2.3/b.yaml'', MaxResponseBytes = 0\<rparr>"

definition smallFetcher :: HTTPFetcher where
  "smallFetcher = \<lparr>fetchURL = ''https://example.com/a/v1.2.3/b.yaml'', MaxResponseBytes = 3\<rparr>"

definition okServer :: http_env where
  "okServer =
     \<lparr>NewRequest = (\<lambda>u. None),
      Do = (\<lambda>u. Inr \<lparr>StatusCode = 200, RetryAfterHeader = [],
                        Body = \<lparr>content = ''hello'', failure = None\<rparr>\<rparr>)\<rparr>"

definition exampleCached :: CachedFetcher where
  "exampleCached = NewCachedFetcher (sampleNet exampleFetcher) (URL exampleFetcher)"

definition failingCached :: CachedFetcher where
  "failingCached = NewCachedFetcher (failingNet exampleFetcher) (URL exampleFetcher)"

section \<open>The matcher decides the language of its expression\<close>

lemma nil_in_conc: "[] \<in> conc A B \<longleftrightarrow> [] \<in> A \<and> [] \<in> B"
  by (auto simp: conc_def)

lemma cons_in_conc:
  "c # w \<in> conc A B \<longleftrightarrow>
     (\<exists>u v. w = u @ v \<and> c # u \<in> A \<and> v \<in> B) \<or> ([] \<in> A \<and> c # w \<in> B)"
  by (auto simp: conc_def Cons_eq_append_conv)

lemma cons_in_star_D:
  assumes "x \<in> star A" and "x = c # w"
  shows "\<exists>u v. w = u @ v \<and> c # u \<in> A \<and> v \<in> star A"
  using assms
proof (induction arbitrary: w rule: star.induct)
  case star_nil
  then show ?case by simp
next
  case (star_app u v)
  show ?case
  proof (cases u)
    case Nil
    with star_app show ?thesis by simp
  next
    case (Cons d u')
    with star_app.prems have "d = c" and "w = u' @ v" by simp_all
    with Cons star_app.hyps show ?thesis by blast
  qed
qed

lemma cons_in_star:
  "c # w \<in> star A \<longleftrightarrow> (\<exists>u v. w = u @ v \<and> c # u \<in> A \<and> v \<in> star A)"
proof
  assume "c # w \<in> star A"
  then show "\<exists>u v. w = u @ v \<and> c # u \<in> A \<and> v \<in> star A"
    by (rule cons_in_star_D) simp
next
  assume "\<exists>u v. w = u @ v \<and> c # u \<in> A \<and> v \<in> star A"
  then obtain u v where "w = u @ v" "c # u \<in> A" "v \<in> star A" by blast
  then show "c # w \<in> star A"
    using star_app [of "c # u" A v] by simp
qed

lemma nullable_lang: "nullable r \<longleftrightarrow> [] \<in> lang r"
  by (induction r) (auto simp: nil_in_conc star_nil)

lemma lang_deriv: "w \<in> lang (deriv c r) \<longleftrightarrow> c # w \<in> lang r"
proof (induction r arbitrary: w)
  case (Seq r s)
  then show ?case
    by (auto simp: cons_in_conc nullable_lang) (auto simp: conc_def)
next
  case (Star r)
  then show ?case
    by (auto simp: cons_in_star) (auto simp: conc_def)
next
  case (Plus r)
  then show ?case
    by (auto simp: cons_in_conc cons_in_star) (auto simp: conc_def)
qed auto

lemma MatchString_lang: "MatchString r w \<longleftrightarrow> w \<in> lang r"
  by (induction w arbitrary: r) (simp_all add: nullable_lang lang_deriv)

lemma star_class: "w \<in> star {[c] | c. P c} \<longleftrightarrow> list_all P w"
proof (induction w)
  case Nil
  show ?case by (simp add: star_nil)
next
  case (Cons a w)
  show ?case by (auto simp: cons_in_star Cons)
qed

lemma plus_class: "w \<in> conc {[c] | c. P c} (star {[c] | c. P c}) \<longleftrightarrow> w \<noteq> [] \<and> list_all P w"
  by (cases w) (auto simp: nil_in_conc cons_in_conc star_class)

lemma lang_plus_digit: "lang (Plus (Class Digit)) = {w. digits w}"
  using plus_class [of _ is_digit] by (auto simp: digits_def)

lemma lang_plus_word: "lang (Plus (Class WordOrDot)) = {w. prerelease_tag w}"
  using plus_class [of _ "\<lambda>c. is_word c \<or> c = CHR ''.''"] by (auto simp: prerelease_tag_def)

lemma lang_Str: "lang (Str s) = {s}"
  by (induction s) (auto simp: conc_def)

lemma in_conc: "w \<in> conc A B \<longleftrightarrow> (\<exists>u v. w = u @ v \<and> u \<in> A \<and> v \<in> B)"
  by (auto simp: conc_def)

lemma in_conc_chr: "w \<in> conc {[c]} B \<longleftrightarrow> (\<exists>v. w = c # v \<and> v \<in> B)"
  by (auto simp: conc_def)

lemma in_conc_digits: "w \<in> conc {u. digits u} B \<longleftrightarrow> (\<exists>u v. w = u @ v \<and> digits u \<and> v \<in> B)"
  by (auto simp: conc_def)

lemma in_opt_tag:
  "w \<in> insert [] (conc {[CHR ''-'']} {t. prerelease_tag t}) \<longleftrightarrow>
     w = [] \<or> (\<exists>t. prerelease_tag t \<and> w = CHR ''-'' # t)"
  by (auto simp: in_conc_chr)

lemma lang_semver_unfold:
  "w \<in> lang semver_re \<longleftrightarrow>
    (\<exists>v. w = CHR ''v'' # v \<and> (\<exists>a v1. v = a @ v1 \<and> digits a \<and>
      (\<exists>v2. v1 = CHR ''.'' # v2 \<and> (\<exists>b v3. v2 = b @ v3 \<and> digits b \<and>
        (\<exists>v4. v3 = CHR ''.'' # v4 \<and> (\<exists>c v5. v4 = c @ v5 \<and> digits c \<and>
          (v5 = [] \<or> (\<exists>t. prerelease_tag t \<and> v5 = CHR ''-'' # t))))))))"
  unfolding semver_re_def
  apply (simp only: lang.simps(3,5,9) lang_plus_digit lang_plus_word)
  apply (simp only: in_conc_chr in_conc_digits in_opt_tag)
  done


lemma semver_dir1: "w \<in> lang semver_re \<Longrightarrow> semver_like w"
  unfolding lang_semver_unfold semver_like_def
  apply (elim exE conjE disjE)
   apply (rule_tac x=a in exI, rule_tac x=b in exI, rule_tac x=c in exI)
   apply simp
  apply (rule_tac x=a in exI, rule_tac x=b in exI, rule_tac x=c in exI)
  apply simp
  done

lemma semver_shape:
  assumes "digits a" "digits b" "digits c"
    and "v5 = [] \<or> (\<exists>t. prerelease_tag t \<and> v5 = CHR ''-'' # t)"
  shows "CHR ''v'' # a @ CHR ''.'' # b @ CHR ''.'' # c @ v5 \<in> lang semver_re"
  unfolding lang_semver_unfold
  using assms by (intro exI conjI) (rule refl | assumption)+


lemma semver_dir2:
  assumes "semver_like w"
  shows "w \<in> lang semver_re"
proof -
  from assms obtain a b c where d: "digits a" "digits b" "digits c"
    and w: "w = ''v'' @ a @ ''.'' @ b @ ''.'' @ c \<or>
         (\<exists>t. prerelease_tag t \<and> w = ''v'' @ a @ ''.'' @ b @ ''.'' @ c @ ''-'' @ t)"
    unfolding semver_like_def by (elim exE conjE) (rule that)
  from w show ?thesis
  proof (elim disjE exE conjE)
    assume eq: "w = ''v'' @ a @ ''.'' @ b @ ''.'' @ c"
    have "CHR ''v'' # a @ CHR ''.'' # b @ CHR ''.'' # c @ [] \<in> lang semver_re"
      by (rule semver_shape [OF d]) (rule disjI1, rule refl)
    moreover have "w = CHR ''v'' # a @ CHR ''.'' # b @ CHR ''.'' # c @ []"
      unfolding eq by simp
    ultimately show ?thesis by (simp only:)
  next
    fix t
    assume t: "prerelease_tag t" and eq: "w = ''v'' @ a @ ''.'' @ b @ ''.'' @ c @ ''-'' @ t"
    have "\<exists>t'. prerelease_tag t' \<and> CHR ''-'' # t = CHR ''-'' # t'"
      using t by (intro exI conjI) (assumption, rule refl)
    then have "CHR ''v'' # a @ CHR ''.'' # b @ CHR ''.'' # c @ CHR ''-'' # t \<in> lang semver_re"
      by (intro semver_shape [OF d] disjI2)
    moreover have "w = CHR ''v'' # a @ CHR ''.'' # b @ CHR ''.'' # c @ CHR ''-'' # t"
      unfolding eq by simp
    ultimately show ?thesis by (simp only:)
  qed
qed

lemma lang_semver: "w \<in> lang semver_re \<longleftrightarrow> semver_like w"
  by (rule iffI) (erule semver_dir1, erule semver_dir2)

lemma lang_validVersionPattern: "w \<in> lang validVersionPattern \<longleftrightarrow> spec_accepts_version w"
proof -
  have "validVersionPattern = Alt semver_re (Str ''latest'')"
    by (simp only: validVersionPattern_def semver_re_def)
  then have "lang validVersionPattern = lang (Alt semver_re (Str ''latest''))"
    by (rule arg_cong)
  then have "lang validVersionPattern = lang semver_re \<union> {''latest''}"
    by (simp only: lang.simps(6) lang_Str)
  then show ?thesis
    by (simp only: Un_iff lang_semver spec_accepts_version_def singleton_iff)
qed

lemma ValidateVersion_iff: "ValidateVersion s = None \<longleftrightarrow> spec_accepts_version s"
  by (simp add: ValidateVersion_def MatchString_lang lang_validVersionPattern)

lemma digit_is_word: "is_digit c \<Longrightarrow> is_word c"
  by (auto simp: is_digit_def is_word_def)

lemma digits_chars: "digits a \<Longrightarrow> list_all version_char a"
  using digit_is_word by (auto simp: digits_def list_all_iff version_char_def)

lemma tag_chars: "prerelease_tag a \<Longrightarrow> list_all version_char a"
  by (auto simp: prerelease_tag_def list_all_iff version_char_def)

lemma punct_chars: "version_char CHR ''v''" "version_char CHR ''.''" "version_char CHR ''-''"
  by (simp_all add: version_char_def is_word_def)

lemma latest_chars: "list_all version_char ''latest''"
  by (simp add: version_char_def is_word_def)

lemma accepted_chars:
  assumes "spec_accepts_version s"
  shows "list_all version_char s"
proof -
  from assms consider "s = ''latest''" | "semver_like s"
    unfolding spec_accepts_version_def by blast
  then show ?thesis
  proof cases
    case 1
    then show ?thesis using latest_chars by (simp only:)
  next
    case 2
    then obtain a b c where d: "digits a" "digits b" "digits c"
      and w: "s = ''v'' @ a @ ''.'' @ b @ ''.'' @ c \<or>
         (\<exists>t. prerelease_tag t \<and> s = ''v'' @ a @ ''.'' @ b @ ''.'' @ c @ ''-'' @ t)"
      unfolding semver_like_def by (elim exE conjE) (rule that)
    from w show ?thesis
    proof (elim disjE exE conjE)
      assume "s = ''v'' @ a @ ''.'' @ b @ ''.'' @ c"
      then show ?thesis
        using d [THEN digits_chars] punct_chars by simp
    next
      fix t
      assume "prerelease_tag t" and "s = ''v'' @ a @ ''.'' @ b @ ''.'' @ c @ ''-'' @ t"
      then show ?thesis
        using d [THEN digits_chars] punct_chars tag_chars [of t] by simp
    qed
  qed
qed

lemma accepted_starts_with_v:
  assumes "spec_accepts_version s" and "s \<noteq> ''latest''"
  shows "s \<noteq> [] \<and> hd s = CHR ''v''"
proof -
  from assms have "semver_like s"
    unfolding spec_accepts_version_def by blast
  then obtain r where "s = CHR ''v'' # r"
    unfolding semver_like_def by (elim exE conjE disjE) simp_all
  then show ?thesis by simp
qed

lemma not_version_char:
  "\<not> version_char CHR ''/''" "\<not> version_char CHR ''?''" "\<not> version_char CHR ''#''"
  "\<not> version_char CHR '' ''" "\<not> version_char (CHR 0x00)"
  by (simp_all add: version_char_def is_word_def)

text \<open>
  Claim C2. \<^verbatim>\<open>ValidateVersion\<close> returns no error exactly for the strings of the form
  \<^verbatim>\<open>v<digits>.<digits>.<digits>\<close>, optionally followed by a hyphen and a non-empty sequence
  of word characters and dots, and for the literal \<^verbatim>\<open>latest\<close>. Every other string gets the
  invalid-version error: in particular the empty string, a string that does not start
  with \<^verbatim>\<open>v\<close> (and is not \<^verbatim>\<open>latest\<close>), and a string containing a slash, a question
  mark, a hash, a space or a NUL byte.
\<close>

theorem ValidateVersion_accepts_exactly:
  "(ValidateVersion s = None \<longleftrightarrow> spec_accepts_version s) \<and>
   (\<not> spec_accepts_version s \<longrightarrow> ValidateVersion s = Some (InvalidVersion s)) \<and>
   ValidateVersion [] \<noteq> None \<and>
   (s \<noteq> ''latest'' \<and> (s = [] \<or> hd s \<noteq> CHR ''v'') \<longrightarrow> ValidateVersion s \<noteq> None) \<and>
   (CHR ''/'' \<in> set s \<or> CHR ''?'' \<in> set s \<or> CHR ''#'' \<in> set s \<or>
    CHR '' '' \<in> set s \<or> CHR 0x00 \<in> set s \<longrightarrow> ValidateVersion s \<noteq> None)"
proof (intro conjI impI)
  show "ValidateVersion s = None \<longleftrightarrow> spec_accepts_version s"
    by (rule ValidateVersion_iff)
  show "ValidateVersion s = Some (InvalidVersion s)" if "\<not> spec_accepts_version s"
    using that ValidateVersion_iff [of s] by (simp add: ValidateVersion_def split: if_splits)
  show "ValidateVersion [] \<noteq> None"
    by (simp add: ValidateVersion_def validVersionPattern_def)
  show "ValidateVersion s \<noteq> None" if "s \<noteq> ''latest'' \<and> (s = [] \<or> hd s \<noteq> CHR ''v'')"
    using that accepted_starts_with_v [of s] ValidateVersion_iff [of s] by blast
  show "ValidateVersion s \<noteq> None"
    if "CHR ''/'' \<in> set s \<or> CHR ''?'' \<in> set s \<or> CHR ''#'' \<in> set s \<or>
        CHR '' '' \<in> set s \<or> CHR 0x00 \<in> set s"
  proof
    assume "ValidateVersion s = None"
    then have "list_all version_char s"
      using ValidateVersion_iff accepted_chars by blast
    then have "\<forall>c\<in>set s. version_char c" by (simp only: list_all_iff)
    with that not_version_char show False by blast
  qed
qed

theorem ValidateVersion_accepts_exactly_witness:
  "ValidateVersion ''v1.0.0-rc.1'' = None \<and> spec_accepts_version ''v1.0.0-rc.1'' \<and>
   ValidateVersion ''1.2.3'' = Some (InvalidVersion ''1.2.3'') \<and>
   \<not> spec_accepts_version ''1.2.3'' \<and>
   ValidateVersion ''v1.0.0/../../evil'' \<noteq> None"
proof -
  have a: "ValidateVersion ''v1.0.0-rc.1'' = None"
    by (simp add: ValidateVersion_def validVersionPattern_def is_digit_def is_word_def)
  have c: "ValidateVersion ''1.2.3'' = Some (InvalidVersion ''1.2.3'')"
    by (simp add: ValidateVersion_def validVersionPattern_def)
  have d: "CHR ''/'' \<in> set ''v1.0.0/../../evil''" by simp
  have 1: "spec_accepts_version ''v1.0.0-rc.1''"
    using a ValidateVersion_accepts_exactly [of "''v1.0.0-rc.1''"] by blast
  have 2: "\<not> spec_accepts_version ''1.2.3''"
    using c ValidateVersion_accepts_exactly [of "''1.2.3''"] by auto
  have 3: "ValidateVersion ''v1.0.0/../../evil'' \<noteq> None"
    using d ValidateVersion_accepts_exactly [of "''v1.0.0/../../evil''"] by blast
  from a c 1 2 3 show ?thesis by blast
qed

section \<open>The retry loop\<close>

lemma loop_exhausted:
  "int j \<ge> maxRetry t \<Longrightarrow> RoundTrip_loop t E req j tr = returns (transport E j req) j tr"
  by (subst RoundTrip_loop.simps) simp

lemma loop_terminal_error:
  "int j < maxRetry t \<Longrightarrow> isRetryable (transport E j req) = (b, Some e) \<Longrightarrow>
   RoundTrip_loop t E req j tr =
     \<lparr>rt_resp = None, rt_err = Some e, rt_attempts = Suc j,
      rt_trace = tr @ closeBody (transport E j req) j\<rparr>"
  by (subst RoundTrip_loop.simps) simp

lemma loop_not_retryable:
  "int j < maxRetry t \<Longrightarrow> isRetryable (transport E j req) = (False, None) \<Longrightarrow>
   RoundTrip_loop t E req j tr = returns (transport E j req) j tr"
  by (subst RoundTrip_loop.simps) simp

lemma loop_body_lost:
  "int j < maxRetry t \<Longrightarrow> isRetryable (transport E j req) = (True, None) \<Longrightarrow>
   rebuildBody req j = None \<Longrightarrow>
   RoundTrip_loop t E req j tr = returns (transport E j req) j tr"
  by (subst RoundTrip_loop.simps) simp

lemma loop_cancelled:
  "int j < maxRetry t \<Longrightarrow> isRetryable (transport E j req) = (True, None) \<Longrightarrow>
   rebuildBody req j = Some req' \<Longrightarrow> ctxDone E j \<Longrightarrow>
   RoundTrip_loop t E req j tr =
     \<lparr>rt_resp = None, rt_err = Some (ctxErr E), rt_attempts = Suc j,
      rt_trace = tr @ closeBody (transport E j req) j\<rparr>"
  by (subst RoundTrip_loop.simps) (simp add: Let_def)

lemma loop_continue:
  "int j < maxRetry t \<Longrightarrow> isRetryable (transport E j req) = (True, None) \<Longrightarrow>
   rebuildBody req j = Some req' \<Longrightarrow> \<not> ctxDone E j \<Longrightarrow>
   RoundTrip_loop t E req j tr =
     RoundTrip_loop t E req' (Suc j)
       (tr @ closeBody (transport E j req) j @
        [Sleep (if retryAfter (respOf (transport E j req)) > 0
                then retryAfter (respOf (transport E j req)) else wait t)])"
  by (subst RoundTrip_loop.simps) (simp add: Let_def)

lemma isRetryable_error:
  "isRetryable (Inl e) = (if is_net_timeout e then (True, None) else (False, Some e))"
  by (simp add: isRetryable_def)

lemma isRetryable_response:
  "isRetryable (Inr r) = (retryable_status (StatusCode r), None)"
  by (simp add: isRetryable_def retryable_status_def)

lemma retryable_iff:
  "retryable outcome \<longleftrightarrow>
     (case outcome of Inl e \<Rightarrow> is_net_timeout e | Inr r \<Rightarrow> retryable_status (StatusCode r))"
  by (cases outcome) (simp_all add: retryable_def isRetryable_error isRetryable_response)

text \<open>
  Claim C4. The classification of an attempt's outcome: a transport error that is a timeout
  is retryable; any other transport error is not, and \<^verbatim>\<open>RoundTrip\<close> returns it at once
  with no response, whatever the attempt; the statuses 408, 429, 0 and everything from 500
  up are retryable; a response with any other status is not, and \<^verbatim>\<open>RoundTrip\<close> returns it
  as it is, with no error, whatever the attempt.
\<close>

theorem retry_classification:
  "isRetryable (Inl e) = (if is_net_timeout e then (True, None) else (False, Some e)) \<and>
   isRetryable (Inr r) =
     (StatusCode r = 408 \<or> StatusCode r = 429 \<or> StatusCode r = 0 \<or> StatusCode r \<ge> 500, None) \<and>
   (transport E j req = Inl e \<and> \<not> is_net_timeout e \<longrightarrow>
      rt_resp (RoundTrip_loop t E req j tr) = None \<and>
      rt_err (RoundTrip_loop t E req j tr) = Some e \<and>
      rt_attempts (RoundTrip_loop t E req j tr) = Suc j) \<and>
   (transport E j req = Inr r \<and>
    \<not> (StatusCode r = 408 \<or> StatusCode r = 429 \<or> StatusCode r = 0 \<or> StatusCode r \<ge> 500) \<longrightarrow>
      rt_resp (RoundTrip_loop t E req j tr) = Some r \<and>
      rt_err (RoundTrip_loop t E req j tr) = None \<and>
      rt_attempts (RoundTrip_loop t E req j tr) = Suc j)"
proof (intro conjI impI)
  show "isRetryable (Inl e) = (if is_net_timeout e then (True, None) else (False, Some e))"
    by (rule isRetryable_error)
  show r: "isRetryable (Inr r) =
     (StatusCode r = 408 \<or> StatusCode r = 429 \<or> StatusCode r = 0 \<or> StatusCode r \<ge> 500, None)"
    by (simp add: isRetryable_response retryable_status_def)
  {
    assume h: "transport E j req = Inl e \<and> \<not> is_net_timeout e"
    then have i: "isRetryable (transport E j req) = (False, Some e)"
      by (simp add: isRetryable_error)
    have R: "RoundTrip_loop t E req j tr =
        \<lparr>rt_resp = None, rt_err = Some e, rt_attempts = Suc j, rt_trace = tr\<rparr>"
    proof (cases "int j < maxRetry t")
      case True
      from loop_terminal_error [OF True i] h show ?thesis by (simp add: closeBody_def)
    next
      case False
      then show ?thesis using h by (simp add: loop_exhausted returns_def)
    qed
    show "rt_resp (RoundTrip_loop t E req j tr) = None" by (simp add: R)
    show "rt_err (RoundTrip_loop t E req j tr) = Some e" by (simp add: R)
    show "rt_attempts (RoundTrip_loop t E req j tr) = Suc j" by (simp add: R)
  }
  {
    assume h: "transport E j req = Inr r \<and>
      \<not> (StatusCode r = 408 \<or> StatusCode r = 429 \<or> StatusCode r = 0 \<or> StatusCode r \<ge> 500)"
    then have i: "isRetryable (transport E j req) = (False, None)"
      using r by simp
    have R: "RoundTrip_loop t E req j tr =
        \<lparr>rt_resp = Some r, rt_err = None, rt_attempts = Suc j, rt_trace = tr\<rparr>"
    proof (cases "int j < maxRetry t")
      case True
      from loop_not_retryable [OF True i] h show ?thesis by (simp add: returns_def)
    next
      case False
      then show ?thesis using h by (simp add: loop_exhausted returns_def)
    qed
    show "rt_resp (RoundTrip_loop t E req j tr) = Some r" by (simp add: R)
    show "rt_err (RoundTrip_loop t E req j tr) = None" by (simp add: R)
    show "rt_attempts (RoundTrip_loop t E req j tr) = Suc j" by (simp add: R)
  }
qed

theorem retry_classification_witness:
  "rt_resp (RoundTrip twoRetries alwaysBroken getRequest) = None \<and>
   rt_err (RoundTrip twoRetries alwaysBroken getRequest) = Some brokenPipe \<and>
   rt_attempts (RoundTrip twoRetries alwaysBroken getRequest) = 1 \<and>
   rt_resp (RoundTrip twoRetries always404 getRequest) = Some resp404 \<and>
   rt_err (RoundTrip twoRetries always404 getRequest) = None \<and>
   rt_attempts (RoundTrip twoRetries always404 getRequest) = 1"
proof -
  have a: "transport alwaysBroken 0 getRequest = Inl brokenPipe \<and> \<not> is_net_timeout brokenPipe"
    by (simp add: alwaysBroken_def brokenPipe_def)
  have b: "transport always404 0 getRequest = Inr resp404 \<and>
      \<not> (StatusCode resp404 = 408 \<or> StatusCode resp404 = 429 \<or> StatusCode resp404 = 0 \<or>
         StatusCode resp404 \<ge> 500)"
    by (simp add: always404_def resp404_def)
  from a b show ?thesis
    using retry_classification [of brokenPipe resp404 alwaysBroken 0 getRequest twoRetries "[]"]
      retry_classification [of brokenPipe resp404 always404 0 getRequest twoRetries "[]"]
    by (simp add: RoundTrip_def)
qed

lemma loop_rounds:
  assumes "\<forall>i<k. int i < maxRetry t \<and> retryable (transport E i (req_at req i)) \<and>
      rebuildBody (req_at req i) i \<noteq> None \<and> \<not> ctxDone E i"
  shows "j \<le> k \<Longrightarrow>
     RoundTrip_loop t E (req_at req j) j (rounds t E req j) =
     RoundTrip_loop t E (req_at req k) k (rounds t E req k)"
proof (induction "k - j" arbitrary: j)
  case 0
  then have "j = k" by simp
  then show ?case by simp
next
  case (Suc d)
  then have lt: "j < k" by linarith
  with assms have m: "int j < maxRetry t"
    and i: "isRetryable (transport E j (req_at req j)) = (True, None)"
    and c: "\<not> ctxDone E j"
    by (simp_all add: retryable_def)
  from assms lt obtain q where q: "rebuildBody (req_at req j) j = Some q" by blast
  then have q': "req_at req (Suc j) = q" by simp
  have d: "d = k - Suc j" using Suc(2) by linarith
  have le: "Suc j \<le> k" using lt by simp
  have "RoundTrip_loop t E (req_at req j) j (rounds t E req j) =
      RoundTrip_loop t E (req_at req (Suc j)) (Suc j) (rounds t E req (Suc j))"
    unfolding loop_continue [OF m i q c] q' by (simp add: nextWait_def)
  then show ?case
    using Suc(1) [OF d le] by simp
qed

lemma RoundTrip_rounds:
  assumes "\<forall>i<k. int i < maxRetry t \<and> retryable (transport E i (req_at req i)) \<and>
      rebuildBody (req_at req i) i \<noteq> None \<and> \<not> ctxDone E i"
  shows "RoundTrip t E req = RoundTrip_loop t E (req_at req k) k (rounds t E req k)"
  using loop_rounds [OF assms, of 0] by (simp add: RoundTrip_def)

lemma req_at_no_body: "ReqBody req = None \<Longrightarrow> req_at req i = req"
  by (induction i) (simp_all add: rebuildBody_def)

text \<open>
  Claim C3, as amended. With \<^verbatim>\<open>maxRetry = N\<close>, \<open>N \<ge> 0\<close>: if every attempt yields a
  retryable outcome, the request has no body or its body is rebuilt for every retry, and
  the context is not cancelled during the waits, then \<^verbatim>\<open>RoundTrip\<close> makes exactly
  \<open>N + 1\<close> attempts, sleeps through the \<open>N\<close> waits between them, and returns the outcome
  of the last attempt as it is: a response with a nil error when the last attempt
  received one, the timeout error with no response when it timed out. Never an error of
  its own making.
\<close>

theorem exhaustion_returns_last_outcome:
  assumes "0 \<le> maxRetry t"
    and "\<forall>i. int i \<le> maxRetry t \<longrightarrow> retryable (transport E i (req_at req i))"
    and "\<forall>i. int i < maxRetry t \<longrightarrow> rebuildBody (req_at req i) i \<noteq> None"
    and "\<forall>i. int i < maxRetry t \<longrightarrow> \<not> ctxDone E i"
  shows "rt_attempts (RoundTrip t E req) = nat (maxRetry t) + 1 \<and>
     rt_resp (RoundTrip t E req) =
       respOf (transport E (nat (maxRetry t)) (req_at req (nat (maxRetry t)))) \<and>
     rt_err (RoundTrip t E req) =
       errOf (transport E (nat (maxRetry t)) (req_at req (nat (maxRetry t)))) \<and>
     (\<forall>r. transport E (nat (maxRetry t)) (req_at req (nat (maxRetry t))) = Inr r \<longrightarrow>
        rt_resp (RoundTrip t E req) = Some r \<and> rt_err (RoundTrip t E req) = None) \<and>
     (\<forall>e. transport E (nat (maxRetry t)) (req_at req (nat (maxRetry t))) = Inl e \<longrightarrow>
        rt_resp (RoundTrip t E req) = None \<and> rt_err (RoundTrip t E req) = Some e \<and>
        is_net_timeout e) \<and>
     rt_trace (RoundTrip t E req) = rounds t E req (nat (maxRetry t))"
proof -
  let ?N = "nat (maxRetry t)"
  let ?out = "transport E ?N (req_at req ?N)"
  have pre: "\<forall>i<?N. int i < maxRetry t \<and> retryable (transport E i (req_at req i)) \<and>
      rebuildBody (req_at req i) i \<noteq> None \<and> \<not> ctxDone E i"
    using assms by (auto simp: zless_nat_eq_int_zless)
  have ex: "int ?N \<ge> maxRetry t" using assms(1) by simp
  have R: "RoundTrip t E req = returns ?out ?N (rounds t E req ?N)"
    unfolding RoundTrip_rounds [OF pre] by (rule loop_exhausted [OF ex])
  have last: "retryable ?out" using assms(1,2) by simp
  show ?thesis
  proof (cases ?out)
    case (Inl e)
    with last have "is_net_timeout e"
      by (simp add: retryable_def isRetryable_def split: if_splits)
    with Inl show ?thesis
      unfolding R by (simp add: returns_def respOf_def errOf_def)
  next
    case (Inr r)
    then show ?thesis
      unfolding R by (simp add: returns_def respOf_def errOf_def)
  qed
qed

theorem exhaustion_returns_last_outcome_witness:
  "rt_attempts (RoundTrip twoRetries always503 getRequest) = 3 \<and>
   rt_resp (RoundTrip twoRetries always503 getRequest) = Some resp503 \<and>
   rt_err (RoundTrip twoRetries always503 getRequest) = None \<and>
   rt_attempts (RoundTrip twoRetries timeoutsThen503 getRequest) = 3 \<and>
   rt_resp (RoundTrip twoRetries timeoutsThen503 getRequest) = Some resp503 \<and>
   rt_err (RoundTrip twoRetries timeoutsThen503 getRequest) = None \<and>
   rt_trace (RoundTrip twoRetries timeoutsThen503 getRequest) =
     [Sleep 1000000, Sleep 1000000] \<and>
   rt_attempts (RoundTrip twoRetries alwaysTimeout getRequest) = 3 \<and>
   rt_resp (RoundTrip twoRetries alwaysTimeout getRequest) = None \<and>
   rt_err (RoundTrip twoRetries alwaysTimeout getRequest) = Some timeoutErr"
proof -
  have b: "\<And>i. req_at getRequest i = getRequest"
    by (rule req_at_no_body) (simp add: getRequest_def)
  have 1: "0 \<le> maxRetry twoRetries" by (simp add: twoRetries_def)
  have 3: "\<forall>i. int i < maxRetry twoRetries \<longrightarrow> rebuildBody (req_at getRequest i) i \<noteq> None"
    by (simp add: b) (simp add: getRequest_def rebuildBody_def)
  have N: "nat (maxRetry twoRetries) = 2" by (simp add: twoRetries_def)
  have a2: "\<forall>i. int i \<le> maxRetry twoRetries \<longrightarrow>
      retryable (transport always503 i (req_at getRequest i))"
    by (simp add: always503_def retryable_def isRetryable_def resp503_def)
  have a4: "\<forall>i. int i < maxRetry twoRetries \<longrightarrow> \<not> ctxDone always503 i"
    by (simp add: always503_def)
  have m2: "\<forall>i. int i \<le> maxRetry twoRetries \<longrightarrow>
      retryable (transport timeoutsThen503 i (req_at getRequest i))"
    by (simp add: timeoutsThen503_def retryable_def isRetryable_def resp503_def timeoutErr_def)
  have m4: "\<forall>i. int i < maxRetry twoRetries \<longrightarrow> \<not> ctxDone timeoutsThen503 i"
    by (simp add: timeoutsThen503_def)
  have t2: "\<forall>i. int i \<le> maxRetry twoRetries \<longrightarrow>
      retryable (transport alwaysTimeout i (req_at getRequest i))"
    by (simp add: alwaysTimeout_def retryable_def isRetryable_def timeoutErr_def)
  have t4: "\<forall>i. int i < maxRetry twoRetries \<longrightarrow> \<not> ctxDone alwaysTimeout i"
    by (simp add: alwaysTimeout_def)
  have r2: "rounds twoRetries timeoutsThen503 getRequest 2 = [Sleep 1000000, Sleep 1000000]"
    by (simp add: numeral_2_eq_2 b timeoutsThen503_def closeBody_def nextWait_def respOf_def
        retryAfter_def twoRetries_def)
  have A: "rt_attempts (RoundTrip twoRetries always503 getRequest) = 3 \<and>
      rt_resp (RoundTrip twoRetries always503 getRequest) = Some resp503 \<and>
      rt_err (RoundTrip twoRetries always503 getRequest) = None"
    using exhaustion_returns_last_outcome [OF 1 a2 3 a4]
    by (simp add: N b always503_def respOf_def errOf_def)
  have M: "rt_attempts (RoundTrip twoRetries timeoutsThen503 getRequest) = 3 \<and>
      rt_resp (RoundTrip twoRetries timeoutsThen503 getRequest) = Some resp503 \<and>
      rt_err (RoundTrip twoRetries timeoutsThen503 getRequest) = None \<and>
      rt_trace (RoundTrip twoRetries timeoutsThen503 getRequest) =
        [Sleep 1000000, Sleep 1000000]"
    using exhaustion_returns_last_outcome [OF 1 m2 3 m4] r2
    by (simp add: N b timeoutsThen503_def respOf_def errOf_def)
  have T: "rt_attempts (RoundTrip twoRetries alwaysTimeout getRequest) = 3 \<and>
      rt_resp (RoundTrip twoRetries alwaysTimeout getRequest) = None \<and>
      rt_err (RoundTrip twoRetries alwaysTimeout getRequest) = Some timeoutErr"
    using exhaustion_returns_last_outcome [OF 1 t2 3 t4]
    by (simp add: N b alwaysTimeout_def respOf_def errOf_def)
  from A M T show ?thesis by simp
qed


text \<open>
  The claim as it was stated fails when the last retryable outcome is a timeout: three
  attempts, as claimed, and then the timeout error with no response.
\<close>

theorem exhaustion_with_timeouts_counterexample:
  "retryable (transport alwaysTimeout 0 getRequest) \<and>
   retryable (transport alwaysTimeout 1 getRequest) \<and>
   retryable (transport alwaysTimeout 2 getRequest) \<and>
   rt_attempts (RoundTrip twoRetries alwaysTimeout getRequest) = 3 \<and>
   rt_resp (RoundTrip twoRetries alwaysTimeout getRequest) = None \<and>
   rt_err (RoundTrip twoRetries alwaysTimeout getRequest) = Some timeoutErr"
  by (simp add: RoundTrip_def RoundTrip_loop.simps twoRetries_def alwaysTimeout_def
      getRequest_def timeoutErr_def retryable_def isRetryable_def rebuildBody_def returns_def
      respOf_def closeBody_def retryAfter_def Let_def)

text \<open>
  The other hypotheses are needed as well: a cancelled wait ends the retries early, and a
  negative bound still gives one attempt.
\<close>

lemma exhaustion_needs_live_context:
  "rt_attempts (RoundTrip twoRetries cancelledAfterSecond getRequest) = 2 \<and>
   rt_resp (RoundTrip twoRetries cancelledAfterSecond getRequest) = None"
  by (simp add: RoundTrip_def RoundTrip_loop.simps twoRetries_def cancelledAfterSecond_def
      getRequest_def resp503_def isRetryable_def rebuildBody_def returns_def respOf_def
      closeBody_def retryAfter_def Let_def)

lemma exhaustion_needs_nonnegative_bound:
  "rt_attempts (RoundTrip \<lparr>maxRetry = - 1, wait = 1\<rparr> always503 getRequest) = 1"
  by (simp add: RoundTrip_def RoundTrip_loop.simps returns_def always503_def)

lemma early_return_from:
  "rt_attempts (RoundTrip_loop t E (req_at req j) j tr) > j \<and>
   (int (rt_attempts (RoundTrip_loop t E (req_at req j) j tr) - 1) < maxRetry t \<and>
    retryable (transport E (rt_attempts (RoundTrip_loop t E (req_at req j) j tr) - 1)
       (req_at req (rt_attempts (RoundTrip_loop t E (req_at req j) j tr) - 1))) \<and>
    rebuildBody (req_at req (rt_attempts (RoundTrip_loop t E (req_at req j) j tr) - 1))
       (rt_attempts (RoundTrip_loop t E (req_at req j) j tr) - 1) \<noteq> None \<longrightarrow>
    ctxDone E (rt_attempts (RoundTrip_loop t E (req_at req j) j tr) - 1) \<and>
    rt_resp (RoundTrip_loop t E (req_at req j) j tr) = None \<and>
    rt_err (RoundTrip_loop t E (req_at req j) j tr) = Some (ctxErr E))"
  (is "?P j tr")
proof (induction "nat (maxRetry t) - j" arbitrary: j tr rule: less_induct)
  case less
  let ?out = "transport E j (req_at req j)"
  show ?case
  proof (cases "int j < maxRetry t")
    case False
    then have ex: "int j \<ge> maxRetry t" by simp
    show ?thesis
      unfolding loop_exhausted [OF ex] using ex
      by (cases ?out) (simp_all add: returns_def)
  next
    case lt: True
    obtain b e where i: "isRetryable ?out = (b, e)" by (cases "isRetryable ?out")
    show ?thesis
    proof (cases e)
      case (Some err)
      with i have ie: "isRetryable ?out = (b, Some err)" by simp
      show ?thesis
        unfolding loop_terminal_error [OF lt ie]
        using ie by (simp add: retryable_def)
    next
      case None
      show ?thesis
      proof (cases b)
        case False
        with i None have i0: "isRetryable ?out = (False, None)" by simp
        show ?thesis
          unfolding loop_not_retryable [OF lt i0]
          using i0 by (cases ?out) (simp_all add: returns_def retryable_def)
      next
        case True
        with i None have i': "isRetryable ?out = (True, None)" by simp
        show ?thesis
        proof (cases "rebuildBody (req_at req j) j")
          case None
          show ?thesis
            unfolding loop_body_lost [OF lt i' None]
            using None by (cases ?out) (simp_all add: returns_def)
        next
          case (Some q)
          then have q': "req_at req (Suc j) = q" by simp
          show ?thesis
          proof (cases "ctxDone E j")
            case True
            show ?thesis
              unfolding loop_cancelled [OF lt i' Some True] using True by simp
          next
            case False
            have m: "nat (maxRetry t) - Suc j < nat (maxRetry t) - j" using lt by linarith
            have "?P (Suc j) (tr @ closeBody ?out j @
                [Sleep (if retryAfter (respOf ?out) > 0 then retryAfter (respOf ?out) else wait t)])"
              by (rule less [OF m])
            then show ?thesis
              unfolding loop_continue [OF lt i' Some False] q' by auto
          qed
        qed
      qed
    qed
  qed
qed

lemma sleeps_append: "sleeps (xs @ ys) = sleeps xs @ sleeps ys"
  by (induction xs rule: sleeps.induct) simp_all

lemma sleeps_closeBody: "sleeps (closeBody outcome j) = []"
  by (cases outcome) (simp_all add: closeBody_def)

lemma sleeps_rounds:
  "sleeps (rounds t E req k) =
     map (\<lambda>i. nextWait t (transport E i (req_at req i))) [0..<k]"
  by (induction k) (simp_all add: sleeps_append sleeps_closeBody)

text \<open>
  Claim C5, as amended. If the context is cancelled during the wait after attempt \<open>k\<close>
  (every attempt up to \<open>k\<close> was retryable, with attempts left and the body rebuilt),
  \<^verbatim>\<open>RoundTrip\<close> returns immediately with a nil response and the context's error: the
  waits slept to their end are those after the attempts before \<open>k\<close>, the wait after
  attempt \<open>k\<close> is not among them, and no further attempt is made. And when \<^verbatim>\<open>RoundTrip\<close>
  returns after an attempt that left retries, was retryable and whose request body could
  be rebuilt (or was absent), the context was cancelled during that wait and the result
  is the context's error: among the requests that can be retried, cancellation is the
  only way out before exhaustion.
\<close>

theorem cancellation_returns_at_once:
  "((\<forall>i<k. int i < maxRetry t \<and> retryable (transport E i (req_at req i)) \<and>
        rebuildBody (req_at req i) i \<noteq> None \<and> \<not> ctxDone E i) \<and>
    int k < maxRetry t \<and> retryable (transport E k (req_at req k)) \<and>
    rebuildBody (req_at req k) k \<noteq> None \<and> ctxDone E k \<longrightarrow>
      rt_resp (RoundTrip t E req) = None \<and>
      rt_err (RoundTrip t E req) = Some (ctxErr E) \<and>
      rt_attempts (RoundTrip t E req) = Suc k \<and>
      rt_trace (RoundTrip t E req) =
        rounds t E req k @ closeBody (transport E k (req_at req k)) k \<and>
      sleeps (rt_trace (RoundTrip t E req)) =
        map (\<lambda>i. nextWait t (transport E i (req_at req i))) [0..<k]) \<and>
   (int (rt_attempts (RoundTrip t E req) - 1) < maxRetry t \<and>
    retryable (transport E (rt_attempts (RoundTrip t E req) - 1)
       (req_at req (rt_attempts (RoundTrip t E req) - 1))) \<and>
    rebuildBody (req_at req (rt_attempts (RoundTrip t E req) - 1))
       (rt_attempts (RoundTrip t E req) - 1) \<noteq> None \<longrightarrow>
      ctxDone E (rt_attempts (RoundTrip t E req) - 1) \<and>
      rt_resp (RoundTrip t E req) = None \<and>
      rt_err (RoundTrip t E req) = Some (ctxErr E))"
proof (intro conjI)
  show "(\<forall>i<k. int i < maxRetry t \<and> retryable (transport E i (req_at req i)) \<and>
        rebuildBody (req_at req i) i \<noteq> None \<and> \<not> ctxDone E i) \<and>
    int k < maxRetry t \<and> retryable (transport E k (req_at req k)) \<and>
    rebuildBody (req_at req k) k \<noteq> None \<and> ctxDone E k \<longrightarrow>
      rt_resp (RoundTrip t E req) = None \<and>
      rt_err (RoundTrip t E req) = Some (ctxErr E) \<and>
      rt_attempts (RoundTrip t E req) = Suc k \<and>
      rt_trace (RoundTrip t E req) =
        rounds t E req k @ closeBody (transport E k (req_at req k)) k \<and>
      sleeps (rt_trace (RoundTrip t E req)) =
        map (\<lambda>i. nextWait t (transport E i (req_at req i))) [0..<k]"
  proof
    assume h: "(\<forall>i<k. int i < maxRetry t \<and> retryable (transport E i (req_at req i)) \<and>
        rebuildBody (req_at req i) i \<noteq> None \<and> \<not> ctxDone E i) \<and>
      int k < maxRetry t \<and> retryable (transport E k (req_at req k)) \<and>
      rebuildBody (req_at req k) k \<noteq> None \<and> ctxDone E k"
    then have pre: "\<forall>i<k. int i < maxRetry t \<and> retryable (transport E i (req_at req i)) \<and>
        rebuildBody (req_at req i) i \<noteq> None \<and> \<not> ctxDone E i"
      and lt: "int k < maxRetry t"
      and i: "isRetryable (transport E k (req_at req k)) = (True, None)"
      and c: "ctxDone E k"
      by (simp_all add: retryable_def)
    from h obtain q where q: "rebuildBody (req_at req k) k = Some q" by blast
    have R: "RoundTrip t E req =
        \<lparr>rt_resp = None, rt_err = Some (ctxErr E), rt_attempts = Suc k,
         rt_trace = rounds t E req k @ closeBody (transport E k (req_at req k)) k\<rparr>"
      unfolding RoundTrip_rounds [OF pre] by (rule loop_cancelled [OF lt i q c])
    show "rt_resp (RoundTrip t E req) = None \<and>
      rt_err (RoundTrip t E req) = Some (ctxErr E) \<and>
      rt_attempts (RoundTrip t E req) = Suc k \<and>
      rt_trace (RoundTrip t E req) =
        rounds t E req k @ closeBody (transport E k (req_at req k)) k \<and>
      sleeps (rt_trace (RoundTrip t E req)) =
        map (\<lambda>i. nextWait t (transport E i (req_at req i))) [0..<k]"
      unfolding R by (simp add: sleeps_append sleeps_closeBody sleeps_rounds)
  qed
  show "int (rt_attempts (RoundTrip t E req) - 1) < maxRetry t \<and>
    retryable (transport E (rt_attempts (RoundTrip t E req) - 1)
       (req_at req (rt_attempts (RoundTrip t E req) - 1))) \<and>
    rebuildBody (req_at req (rt_attempts (RoundTrip t E req) - 1))
       (rt_attempts (RoundTrip t E req) - 1) \<noteq> None \<longrightarrow>
      ctxDone E (rt_attempts (RoundTrip t E req) - 1) \<and>
      rt_resp (RoundTrip t E req) = None \<and>
      rt_err (RoundTrip t E req) = Some (ctxErr E)"
    using early_return_from [of 0 t E req "[]"] by (simp add: RoundTrip_def)
qed

theorem cancellation_returns_at_once_witness:
  "rt_resp (RoundTrip twoRetries cancelledAfterSecond getRequest) = None \<and>
   rt_err (RoundTrip twoRetries cancelledAfterSecond getRequest) =
     Some (ctxErr cancelledAfterSecond) \<and>
   rt_attempts (RoundTrip twoRetries cancelledAfterSecond getRequest) = 2 \<and>
   rt_trace (RoundTrip twoRetries cancelledAfterSecond getRequest) =
     [CloseBody 0, Sleep 1000000, CloseBody 1] \<and>
   sleeps (rt_trace (RoundTrip twoRetries cancelledAfterSecond getRequest)) = [1000000] \<and>
   ctxDone cancelledAfterSecond 1"
proof -
  have b: "\<And>i. req_at getRequest i = getRequest"
    by (rule req_at_no_body) (simp add: getRequest_def)
  have h: "(\<forall>i<1. int i < maxRetry twoRetries \<and>
        retryable (transport cancelledAfterSecond i (req_at getRequest i)) \<and>
        rebuildBody (req_at getRequest i) i \<noteq> None \<and> \<not> ctxDone cancelledAfterSecond i) \<and>
    int 1 < maxRetry twoRetries \<and>
    retryable (transport cancelledAfterSecond 1 (req_at getRequest 1)) \<and>
    rebuildBody (req_at getRequest 1) 1 \<noteq> None \<and> ctxDone cancelledAfterSecond 1"
    unfolding b
    by (simp add: twoRetries_def cancelledAfterSecond_def retryable_def isRetryable_def
        resp503_def getRequest_def rebuildBody_def)
  have r: "rounds twoRetries cancelledAfterSecond getRequest 1 @
      closeBody (transport cancelledAfterSecond 1 (req_at getRequest 1)) 1 =
      [CloseBody 0, Sleep 1000000, CloseBody 1]"
    by (simp add: b cancelledAfterSecond_def closeBody_def nextWait_def respOf_def
        retryAfter_def twoRetries_def resp503_def)
  have w: "map (\<lambda>i. nextWait twoRetries (transport cancelledAfterSecond i (req_at getRequest i)))
      [0..<1] = [1000000]"
    by (simp add: b cancelledAfterSecond_def nextWait_def respOf_def retryAfter_def
        twoRetries_def resp503_def)
  have 1: "rt_resp (RoundTrip twoRetries cancelledAfterSecond getRequest) = None \<and>
      rt_err (RoundTrip twoRetries cancelledAfterSecond getRequest) =
        Some (ctxErr cancelledAfterSecond) \<and>
      rt_attempts (RoundTrip twoRetries cancelledAfterSecond getRequest) = Suc 1 \<and>
      rt_trace (RoundTrip twoRetries cancelledAfterSecond getRequest) =
        [CloseBody 0, Sleep 1000000, CloseBody 1] \<and>
      sleeps (rt_trace (RoundTrip twoRetries cancelledAfterSecond getRequest)) = [1000000]"
    using cancellation_returns_at_once [THEN conjunct1, rule_format, OF h]
    unfolding r w by simp
  then have a: "rt_attempts (RoundTrip twoRetries cancelledAfterSecond getRequest) - 1 = 1"
    by simp
  have 2: "ctxDone cancelledAfterSecond 1"
    using h cancellation_returns_at_once [of 1 twoRetries cancelledAfterSecond getRequest]
    unfolding a by blast
  from 1 2 show ?thesis by simp
qed

text \<open>
  The claim as it was stated fails for a request with a body and no \<^verbatim>\<open>GetBody\<close>: the
  first 503 is returned after one attempt, with retries left and no cancellation.
\<close>

theorem unrebuildable_body_counterexample:
  "int 0 < maxRetry twoRetries \<and>
   retryable (transport always503 0 postRequest) \<and>
   \<not> ctxDone always503 0 \<and>
   rt_attempts (RoundTrip twoRetries always503 postRequest) = 1 \<and>
   rt_resp (RoundTrip twoRetries always503 postRequest) = Some resp503 \<and>
   rt_err (RoundTrip twoRetries always503 postRequest) = None"
  by (simp add: RoundTrip_def RoundTrip_loop.simps twoRetries_def always503_def
      postRequest_def resp503_def retryable_def isRetryable_def rebuildBody_def returns_def
      Let_def)

section \<open>URL builder, fetchers and cache\<close>

text \<open>
  The builders of the samples are what the constructors give on the sample parser, and
  the constructor rejects the bases of \<^verbatim>\<open>TestNewURLBuilder\<close> that it must reject.
\<close>

lemma exampleBuilder_built:
  "NewURLBuilder sampleURL ''https://example.com/a/'' ''/b.yaml'' = Inr exampleBuilder"
  by (simp add: NewURLBuilder_def sampleURL_def sampleParse_def exampleBuilder_def Let_def)

lemma sampleMode_built: "NewAdvisoryMode sampleURL = Inr sampleMode"
  by (simp add: NewAdvisoryMode_def NewURLBuilder_def sampleURL_def sampleParse_def
      sampleMode_def lexiconBaseURL_def schemaDocsBaseURL_def Let_def)

lemma NewURLBuilder_rejects:
  "NewURLBuilder sampleURL ''http://example.com/'' [] = Inl (NotHTTPS ''http'')"
  "NewURLBuilder sampleURL ''example.com/path'' [] = Inl (NotHTTPS [])"
  "NewURLBuilder sampleURL ''https:///path'' [] = Inl NoHost"
  by (simp_all add: NewURLBuilder_def sampleURL_def sampleParse_def Let_def)

lemma NewURLBuilder_origin:
  "NewURLBuilder U baseURL sfx = Inr b \<Longrightarrow> Scheme (base b) = ''https'' \<and> Host (base b) \<noteq> []"
  by (auto simp: NewURLBuilder_def split: sum.splits if_splits)

text \<open>
  Claim C1. For a version the validator accepts, \<^verbatim>\<open>Build\<close> either fails or returns the
  string of the parsed concatenation, whose scheme and host equal the base's. Whenever the
  concatenation parses to a URL whose scheme or host differs from the base's, \<^verbatim>\<open>Build\<close>
  returns the unexpected-origin error, which names the scheme and host it got and the
  ones it wanted. The rejection comes before any network call: \<^verbatim>\<open>Build\<close> touches no
  network, \<^verbatim>\<open>NewHTTPFetcher\<close> then builds no fetcher, and the tool wrappers return the
  error with the state as it was, without running the tool body.
\<close>

theorem Build_pins_origin:
  "(Build U b v = Inr s \<longrightarrow>
      ValidateVersion v = None \<and>
      (\<exists>r. url_Parse U (url_String U (base b) @ v @ suffix b) = Inr r \<and>
           s = url_String U r \<and>
           Scheme r = Scheme (base b) \<and> Host r = Host (base b))) \<and>
   (ValidateVersion v = None \<and>
    url_Parse U (url_String U (base b) @ v @ suffix b) = Inr r \<and>
    (Scheme r \<noteq> Scheme (base b) \<or> Host r \<noteq> Host (base b)) \<longrightarrow>
      Build U b v =
        Inl (UnexpectedOrigin (Scheme r) (Host r) (Scheme (base b)) (Host (base b)))) \<and>
   (Build U b v = Inl e \<longrightarrow> NewHTTPFetcher U b v = Inl (BuildingFetchURL e)) \<and>
   (Build U (lexiconURLBuilder a) v = Inl e \<and> InputGetLexicon.Version input = v \<and> v \<noteq> [] \<longrightarrow>
      getLexicon U net tool a input w = (Inl (BuildingFetchURL e), w)) \<and>
   (Build U (schemaDocsURLBuilder a) v = Inl e \<and> InputGetSchemaDocs.Version input' = v \<and>
    v \<noteq> [] \<longrightarrow>
      getSchemaDocs U net tool' a input' w = (Inl (BuildingFetchURL e), w))"
proof (intro conjI impI)
  show "ValidateVersion v = None" if "Build U b v = Inr s"
    using that by (simp add: Build_def split: option.splits)
  show "\<exists>r. url_Parse U (url_String U (base b) @ v @ suffix b) = Inr r \<and>
           s = url_String U r \<and> Scheme r = Scheme (base b) \<and> Host r = Host (base b)"
    if "Build U b v = Inr s"
    using that by (auto simp: Build_def Let_def split: option.splits sum.splits if_splits)
  show "Build U b v =
        Inl (UnexpectedOrigin (Scheme r) (Host r) (Scheme (base b)) (Host (base b)))"
    if "ValidateVersion v = None \<and>
      url_Parse U (url_String U (base b) @ v @ suffix b) = Inr r \<and>
      (Scheme r \<noteq> Scheme (base b) \<or> Host r \<noteq> Host (base b))"
    using that by (auto simp: Build_def Let_def)
  show "NewHTTPFetcher U b v = Inl (BuildingFetchURL e)" if "Build U b v = Inl e"
    using that by (simp add: NewHTTPFetcher_def)
  show "getLexicon U net tool a input w = (Inl (BuildingFetchURL e), w)"
    if "Build U (lexiconURLBuilder a) v = Inl e \<and> InputGetLexicon.Version input = v \<and> v \<noteq> []"
    using that by (auto simp: getLexicon_def NewHTTPFetcher_def)
  show "getSchemaDocs U net tool' a input' w = (Inl (BuildingFetchURL e), w)"
    if "Build U (schemaDocsURLBuilder a) v = Inl e \<and> InputGetSchemaDocs.Version input' = v \<and>
      v \<noteq> []"
    using that by (auto simp: getSchemaDocs_def NewHTTPFetcher_def)
qed

lemma v123: "ValidateVersion ''v1.2.3'' = None"
  by (simp add: ValidateVersion_def validVersionPattern_def is_digit_def)

lemma Build_example: "Build sampleURL exampleBuilder ''v1.2.3'' = Inr ''https://example.com/a/v1.2.3/b.yaml''"
  by (simp add: Build_def v123 sampleURL_def exampleBuilder_def sampleParse_def sampleString_def Let_def)

lemma Build_stray:
  "url_Parse strayURL (url_String strayURL (base exampleBuilder) @ ''v1.2.3'' @ suffix exampleBuilder)
     = Inr \<lparr>Scheme = ''https'', Host = ''evil.example'', Rest = ''https://example.com/a/v1.2.3/b.yaml''\<rparr>"
  by (simp add: strayURL_def exampleBuilder_def sampleString_def)

theorem Build_pins_origin_witness:
  "Build sampleURL exampleBuilder ''v1.2.3'' = Inr ''https://example.com/a/v1.2.3/b.yaml'' \<and>
   (\<exists>r. url_Parse sampleURL ''https://example.com/a/v1.2.3/b.yaml'' = Inr r \<and>
        Scheme r = ''https'' \<and> Host r = ''example.com'') \<and>
   Build strayURL exampleBuilder ''v1.2.3'' =
     Inl (UnexpectedOrigin ''https'' ''evil.example'' ''https'' ''example.com'') \<and>
   NewHTTPFetcher strayURL exampleBuilder ''v1.2.3'' =
     Inl (BuildingFetchURL (UnexpectedOrigin ''https'' ''evil.example'' ''https'' ''example.com'')) \<and>
   getLexicon strayURL sampleNet fetchTool sampleMode \<lparr>InputGetLexicon.Version = ''v1.2.3''\<rparr>
       emptyWorld =
     (Inl (BuildingFetchURL (UnexpectedOrigin ''https'' ''evil.example'' ''https''
        ''raw.githubusercontent.com'')), emptyWorld)"
proof -
  have 1: "\<exists>r. url_Parse sampleURL ''https://example.com/a/v1.2.3/b.yaml'' = Inr r \<and>
        Scheme r = ''https'' \<and> Host r = ''example.com''"
    using Build_pins_origin [THEN conjunct1, rule_format, OF Build_example]
    by (auto simp: exampleBuilder_def sampleURL_def sampleString_def)
  have h: "ValidateVersion ''v1.2.3'' = None \<and>
    url_Parse strayURL
      (url_String strayURL (base exampleBuilder) @ ''v1.2.3'' @ suffix exampleBuilder) =
      Inr \<lparr>Scheme = ''https'', Host = ''evil.example'',
           Rest = ''https://example.com/a/v1.2.3/b.yaml''\<rparr> \<and>
    (Scheme \<lparr>Scheme = ''https'', Host = ''evil.example'',
           Rest = ''https://example.com/a/v1.2.3/b.yaml''\<rparr> \<noteq> Scheme (base exampleBuilder) \<or>
     Host \<lparr>Scheme = ''https'', Host = ''evil.example'',
           Rest = ''https://example.com/a/v1.2.3/b.yaml''\<rparr> \<noteq> Host (base exampleBuilder))"
    using v123 Build_stray by (simp add: exampleBuilder_def)
  have 2: "Build strayURL exampleBuilder ''v1.2.3'' =
     Inl (UnexpectedOrigin ''https'' ''evil.example'' ''https'' ''example.com'')"
    using Build_pins_origin [THEN conjunct2, THEN conjunct1, rule_format, OF h]
    by (simp add: exampleBuilder_def)
  have 3: "NewHTTPFetcher strayURL exampleBuilder ''v1.2.3'' =
     Inl (BuildingFetchURL (UnexpectedOrigin ''https'' ''evil.example'' ''https'' ''example.com''))"
    using Build_pins_origin [THEN conjunct2, THEN conjunct2, THEN conjunct1, rule_format, OF 2] .
  have g: "Build strayURL (lexiconURLBuilder sampleMode) ''v1.2.3'' =
      Inl (UnexpectedOrigin ''https'' ''evil.example'' ''https'' ''raw.githubusercontent.com'') \<and>
    InputGetLexicon.Version \<lparr>InputGetLexicon.Version = ''v1.2.3''\<rparr> = ''v1.2.3'' \<and>
    ''v1.2.3'' \<noteq> []"
    by (simp add: Build_def v123 strayURL_def sampleMode_def Let_def)
  have 4: "getLexicon strayURL sampleNet fetchTool sampleMode
       \<lparr>InputGetLexicon.Version = ''v1.2.3''\<rparr> emptyWorld =
     (Inl (BuildingFetchURL (UnexpectedOrigin ''https'' ''evil.example'' ''https''
        ''raw.githubusercontent.com'')), emptyWorld)"
    using Build_pins_origin [THEN conjunct2, THEN conjunct2, THEN conjunct2, THEN conjunct1,
        rule_format, OF g] .
  from Build_example 1 2 3 4 show ?thesis by simp
qed

lemma Fetch_miss:
  assumes "refresh \<or> \<not> snd (snd (Cache_Get (cache w) (clock w) (source c)))"
  shows "CachedFetcher_Fetch c refresh w =
     (case fetcher c (calls w) of
        (res, took) \<Rightarrow>
          (case res of
             Inl err \<Rightarrow> (Inl err, w\<lparr>calls := Suc (calls w), clock := clock w + took\<rparr>)
           | Inr (data, srcID) \<Rightarrow>
               (Inr (data, srcID),
                w\<lparr>calls := Suc (calls w), clock := clock w + took,
                  cache := Cache_Set (cache w) (clock w + took) (source c) data srcID\<rparr>)))"
proof -
  obtain a b f where g: "Cache_Get (cache w) (clock w) (source c) = (a, b, f)"
    by (cases "Cache_Get (cache w) (clock w) (source c)") auto
  with assms have "refresh \<or> \<not> f" by simp
  then show ?thesis
    by (auto simp: CachedFetcher_Fetch_def g Let_def split: prod.splits sum.splits)
qed

lemma Fetch_hit:
  assumes "\<not> refresh" and "Cache_Get (cache w) (clock w) (source c) = (d, s, True)"
  shows "CachedFetcher_Fetch c refresh w = (Inr (d, s), w)"
  using assms by (simp add: CachedFetcher_Fetch_def)

text \<open>
  Claim C6. Without refresh and on a cache hit for the configured source key,
  \<^verbatim>\<open>CachedFetcher.Fetch\<close> returns the cached payload and source identifier and leaves the
  state as it was: the wrapped fetcher is not called. With refresh it calls the wrapped
  fetcher, whatever the cache holds (and so it does on a miss).
\<close>

theorem cache_hit_skips_fetcher:
  "(\<not> refresh \<and> Cache_Get (cache w) (clock w) (source c) = (d, s, True) \<longrightarrow>
      CachedFetcher_Fetch c refresh w = (Inr (d, s), w)) \<and>
   (refresh \<longrightarrow>
      calls (snd (CachedFetcher_Fetch c refresh w)) = Suc (calls w) \<and>
      fst (CachedFetcher_Fetch c refresh w) = fst (fetcher c (calls w))) \<and>
   (\<not> refresh \<and> \<not> snd (snd (Cache_Get (cache w) (clock w) (source c))) \<longrightarrow>
      calls (snd (CachedFetcher_Fetch c refresh w)) = Suc (calls w) \<and>
      fst (CachedFetcher_Fetch c refresh w) = fst (fetcher c (calls w)))"
proof (intro conjI impI)
  show "CachedFetcher_Fetch c refresh w = (Inr (d, s), w)"
    if "\<not> refresh \<and> Cache_Get (cache w) (clock w) (source c) = (d, s, True)"
    using that by (simp add: Fetch_hit)
  show "calls (snd (CachedFetcher_Fetch c refresh w)) = Suc (calls w)" if refresh
    using that by (simp add: Fetch_miss split: prod.splits sum.splits)
  show "fst (CachedFetcher_Fetch c refresh w) = fst (fetcher c (calls w))" if refresh
    using that by (simp add: Fetch_miss split: prod.splits sum.splits)
  show "calls (snd (CachedFetcher_Fetch c refresh w)) = Suc (calls w)"
    if "\<not> refresh \<and> \<not> snd (snd (Cache_Get (cache w) (clock w) (source c)))"
    using that by (simp add: Fetch_miss split: prod.splits sum.splits)
  show "fst (CachedFetcher_Fetch c refresh w) = fst (fetcher c (calls w))"
    if "\<not> refresh \<and> \<not> snd (snd (Cache_Get (cache w) (clock w) (source c)))"
    using that by (simp add: Fetch_miss split: prod.splits sum.splits)
qed

lemma warm_hit:
  "Cache_Get (cache warmWorld) (clock warmWorld) (source exampleCached) =
     (''cached'', ''https://example.com/a/v1.2.3/b.yaml'', True)"
  by (simp add: warmWorld_def exampleCached_def NewCachedFetcher_def URL_def exampleFetcher_def
      Cache_Get_def Cache_Set_def NewCache_def)

theorem cache_hit_skips_fetcher_witness:
  "CachedFetcher_Fetch exampleCached False warmWorld =
     (Inr (''cached'', ''https://example.com/a/v1.2.3/b.yaml''), warmWorld) \<and>
   calls (snd (CachedFetcher_Fetch exampleCached True warmWorld)) = 2 \<and>
   fst (CachedFetcher_Fetch exampleCached True warmWorld) =
     Inr (''terms: []'', ''https://example.com/a/v1.2.3/b.yaml'')"
proof -
  have h: "\<not> False \<and> Cache_Get (cache warmWorld) (clock warmWorld) (source exampleCached) =
     (''cached'', ''https://example.com/a/v1.2.3/b.yaml'', True)"
    using warm_hit by simp
  have 1: "CachedFetcher_Fetch exampleCached False warmWorld =
     (Inr (''cached'', ''https://example.com/a/v1.2.3/b.yaml''), warmWorld)"
    using cache_hit_skips_fetcher [THEN conjunct1, rule_format, OF h] .
  have 2: "calls (snd (CachedFetcher_Fetch exampleCached True warmWorld)) = Suc (calls warmWorld) \<and>
      fst (CachedFetcher_Fetch exampleCached True warmWorld) =
        fst (fetcher exampleCached (calls warmWorld))"
    using cache_hit_skips_fetcher [THEN conjunct2, THEN conjunct1, rule_format, of True] by simp
  from 1 2 show ?thesis
    by (simp add: warmWorld_def exampleCached_def NewCachedFetcher_def sampleNet_def
        exampleFetcher_def)
qed

text \<open>
  Claim C7. When the wrapped fetcher returns an error, \<^verbatim>\<open>CachedFetcher.Fetch\<close> returns
  that error unchanged and the cache is what it was before the call. When the wrapped
  fetcher succeeds, the cache is set under the configured key and the fresh result is
  returned. The cache changes only on a successful underlying fetch.
\<close>

theorem fetch_error_leaves_cache:
  "(fetcher c (calls w) = (Inl e, took) \<and>
    (refresh \<or> \<not> snd (snd (Cache_Get (cache w) (clock w) (source c)))) \<longrightarrow>
      fst (CachedFetcher_Fetch c refresh w) = Inl e \<and>
      cache (snd (CachedFetcher_Fetch c refresh w)) = cache w) \<and>
   (fetcher c (calls w) = (Inr (d, sid), took) \<and>
    (refresh \<or> \<not> snd (snd (Cache_Get (cache w) (clock w) (source c)))) \<longrightarrow>
      fst (CachedFetcher_Fetch c refresh w) = Inr (d, sid) \<and>
      cache (snd (CachedFetcher_Fetch c refresh w)) =
        Cache_Set (cache w) (clock w + took) (source c) d sid) \<and>
   (cache (snd (CachedFetcher_Fetch c refresh w)) \<noteq> cache w \<longrightarrow>
      (\<exists>d sid took. fetcher c (calls w) = (Inr (d, sid), took) \<and>
         fst (CachedFetcher_Fetch c refresh w) = Inr (d, sid)))"
proof (intro conjI impI)
  show "fst (CachedFetcher_Fetch c refresh w) = Inl e"
    if "fetcher c (calls w) = (Inl e, took) \<and>
      (refresh \<or> \<not> snd (snd (Cache_Get (cache w) (clock w) (source c))))"
    using that by (simp add: Fetch_miss)
  show "cache (snd (CachedFetcher_Fetch c refresh w)) = cache w"
    if "fetcher c (calls w) = (Inl e, took) \<and>
      (refresh \<or> \<not> snd (snd (Cache_Get (cache w) (clock w) (source c))))"
    using that by (simp add: Fetch_miss)
  show "fst (CachedFetcher_Fetch c refresh w) = Inr (d, sid)"
    if "fetcher c (calls w) = (Inr (d, sid), took) \<and>
      (refresh \<or> \<not> snd (snd (Cache_Get (cache w) (clock w) (source c))))"
    using that by (simp add: Fetch_miss)
  show "cache (snd (CachedFetcher_Fetch c refresh w)) =
        Cache_Set (cache w) (clock w + took) (source c) d sid"
    if "fetcher c (calls w) = (Inr (d, sid), took) \<and>
      (refresh \<or> \<not> snd (snd (Cache_Get (cache w) (clock w) (source c))))"
    using that by (simp add: Fetch_miss)
  show "\<exists>d sid took. fetcher c (calls w) = (Inr (d, sid), took) \<and>
         fst (CachedFetcher_Fetch c refresh w) = Inr (d, sid)"
    if "cache (snd (CachedFetcher_Fetch c refresh w)) \<noteq> cache w"
  proof (cases "refresh \<or> \<not> snd (snd (Cache_Get (cache w) (clock w) (source c)))")
    case True
    with that show ?thesis
      by (auto simp: Fetch_miss split: prod.splits sum.splits)
  next
    case False
    then have "\<not> refresh" and "Cache_Get (cache w) (clock w) (source c) =
        (fst (Cache_Get (cache w) (clock w) (source c)),
         fst (snd (Cache_Get (cache w) (clock w) (source c))), True)"
      by (simp_all add: prod_eq_iff)
    from Fetch_hit [OF this] that show ?thesis by simp
  qed
qed

lemma empty_miss:
  "\<not> snd (snd (Cache_Get (cache emptyWorld) (clock emptyWorld) (source failingCached)))"
  "\<not> snd (snd (Cache_Get (cache emptyWorld) (clock emptyWorld) (source exampleCached)))"
  by (simp_all add: emptyWorld_def Cache_Get_def NewCache_def)

theorem fetch_error_leaves_cache_witness:
  "fst (CachedFetcher_Fetch failingCached False emptyWorld) =
     Inl (ExecutingRequest (OpaqueError ''connection refused'')) \<and>
   cache (snd (CachedFetcher_Fetch failingCached False emptyWorld)) = cache emptyWorld \<and>
   fst (CachedFetcher_Fetch exampleCached False emptyWorld) =
     Inr (''terms: []'', ''https://example.com/a/v1.2.3/b.yaml'') \<and>
   cache (snd (CachedFetcher_Fetch exampleCached False emptyWorld)) =
     Cache_Set (cache emptyWorld) 1000000000 ''https://example.com/a/v1.2.3/b.yaml''
       ''terms: []'' ''https://example.com/a/v1.2.3/b.yaml''"
proof -
  have f: "fetcher failingCached (calls emptyWorld) =
      (Inl (ExecutingRequest (OpaqueError ''connection refused'')), 1000000000) \<and>
    (False \<or> \<not> snd (snd (Cache_Get (cache emptyWorld) (clock emptyWorld) (source failingCached))))"
    using empty_miss by (simp add: failingCached_def NewCachedFetcher_def failingNet_def)
  have g: "fetcher exampleCached (calls emptyWorld) =
      (Inr (''terms: []'', ''https://example.com/a/v1.2.3/b.yaml''), 1000000000) \<and>
    (False \<or> \<not> snd (snd (Cache_Get (cache emptyWorld) (clock emptyWorld) (source exampleCached))))"
    using empty_miss
    by (simp add: exampleCached_def NewCachedFetcher_def sampleNet_def exampleFetcher_def)
  from fetch_error_leaves_cache [THEN conjunct1, rule_format, OF f]
    fetch_error_leaves_cache [THEN conjunct2, THEN conjunct1, rule_format, OF g]
  show ?thesis
    by (simp add: emptyWorld_def exampleCached_def NewCachedFetcher_def URL_def exampleFetcher_def)
qed

text \<open>
  Claim C8. \<^verbatim>\<open>get\<close> reports found exactly when an entry exists for the key and its age is
  strictly less than the TTL, and then returns the entry's payload and source. \<^verbatim>\<open>get\<close>
  returns no new cache, so an expired entry stays stored; a \<^verbatim>\<open>set\<close> for another key leaves
  it too. \<^verbatim>\<open>set\<close> overwrites the entry of its key with the data and the current timestamp,
  whatever was there.
\<close>

theorem ttl_cache_contract:
  "(snd (snd (Cache_Get c now key)) \<longleftrightarrow>
      (\<exists>e. entries c key = Some e \<and> now - insertedAt e < ttl c)) \<and>
   (entries c key = Some e \<and> now - insertedAt e < ttl c \<longrightarrow>
      Cache_Get c now key = (payload e, sourceID e, True)) \<and>
   (key' \<noteq> key \<longrightarrow> entries (Cache_Set c now key' d s) key = entries c key) \<and>
   entries (Cache_Set c now key d s) key =
     Some \<lparr>payload = d, sourceID = s, insertedAt = now\<rparr> \<and>
   ttl (Cache_Set c now key d s) = ttl c \<and>
   Cache_Get (Cache_Set c now key d s) now' key =
     (if now' - now < ttl c then (d, s, True) else ([], [], False))"
  by (auto simp: Cache_Get_def Cache_Set_def split: option.splits)

theorem ttl_cache_contract_witness:
  "Cache_Get (cache warmWorld) 5 ''https://example.com/a/v1.2.3/b.yaml'' =
     (''cached'', ''https://example.com/a/v1.2.3/b.yaml'', True) \<and>
   \<not> snd (snd (Cache_Get (cache staleWorld) (clock staleWorld)
            ''https://example.com/a/v1.2.3/b.yaml'')) \<and>
   entries (cache warmWorld) ''https://example.com/a/v1.2.3/b.yaml'' =
     Some \<lparr>payload = ''cached'', sourceID = ''https://example.com/a/v1.2.3/b.yaml'',
           insertedAt = 0\<rparr>"
  using ttl_cache_contract [of "NewCache 3600000000000" 0 "''https://example.com/a/v1.2.3/b.yaml''"
      undefined "''k''" "''cached''" "''https://example.com/a/v1.2.3/b.yaml''" 5]
    ttl_cache_contract [of "NewCache 3600000000000" 0 "''https://example.com/a/v1.2.3/b.yaml''"
      undefined "''k''" "''cached''" "''https://example.com/a/v1.2.3/b.yaml''" 3600000000000]
  by (simp add: warmWorld_def staleWorld_def NewCache_def)

lemma default_versions_valid:
  "ValidateVersion defaultLexiconVersion = None" "ValidateVersion defaultSchemaVersion = None"
  by (simp_all add: ValidateVersion_def validVersionPattern_def is_digit_def
      defaultLexiconVersion_def defaultSchemaVersion_def)

text \<open>
  Claim C9. With an empty input version \<^verbatim>\<open>getLexicon\<close> builds its fetcher with \<^verbatim>\<open>v0.19.1\<close>
  and \<^verbatim>\<open>getSchemaDocs\<close> with \<^verbatim>\<open>latest\<close>. Both defaults pass the validator, so an empty
  version never yields the invalid-version error.
\<close>

theorem empty_version_defaults:
  "(InputGetLexicon.Version input = [] \<longrightarrow>
      getLexicon U net tool a input w =
        (case NewHTTPFetcher U (lexiconURLBuilder a) ''v0.19.1'' of
           Inl err \<Rightarrow> (Inl err, w)
         | Inr f \<Rightarrow> tool input (NewCachedFetcher (net f) (URL f)) w)) \<and>
   (InputGetSchemaDocs.Version input' = [] \<longrightarrow>
      getSchemaDocs U net tool' a input' w =
        (case NewHTTPFetcher U (schemaDocsURLBuilder a) ''latest'' of
           Inl err \<Rightarrow> (Inl err, w)
         | Inr f \<Rightarrow> tool' input' (NewCachedFetcher (net f) (URL f)) w)) \<and>
   ValidateVersion ''v0.19.1'' = None \<and> ValidateVersion ''latest'' = None \<and>
   NewHTTPFetcher U b ''v0.19.1'' \<noteq> Inl (BuildingFetchURL (InvalidVersion x)) \<and>
   NewHTTPFetcher U b ''latest'' \<noteq> Inl (BuildingFetchURL (InvalidVersion x))"
proof -
  have l: "ValidateVersion ''v0.19.1'' = None" and s: "ValidateVersion ''latest'' = None"
    using default_versions_valid
    by (simp_all add: defaultLexiconVersion_def defaultSchemaVersion_def)
  have "NewHTTPFetcher U b ''v0.19.1'' \<noteq> Inl (BuildingFetchURL (InvalidVersion x))"
    by (auto simp: NewHTTPFetcher_def Build_def l Let_def split: sum.splits)
  moreover have "NewHTTPFetcher U b ''latest'' \<noteq> Inl (BuildingFetchURL (InvalidVersion x))"
    by (auto simp: NewHTTPFetcher_def Build_def s Let_def split: sum.splits)
  ultimately show ?thesis
    using l s
    by (simp add: getLexicon_def getSchemaDocs_def defaultLexiconVersion_def
        defaultSchemaVersion_def)
qed

theorem empty_version_defaults_witness:
  "fst (getLexicon sampleURL sampleNet fetchTool sampleMode
         \<lparr>InputGetLexicon.Version = []\<rparr> emptyWorld) =
     Inr (''terms: []'',
          ''https://raw.githubusercontent.com/gemaraproj/gemara/v0.19.1/docs/lexicon.yaml'') \<and>
   fst (getSchemaDocs sampleURL sampleNet fetchTool sampleMode
         \<lparr>InputGetSchemaDocs.Version = []\<rparr> emptyWorld) =
     Inr (''terms: []'',
          ''https://registry.cue.works/docs/github.com/gemaraproj/gemara@latest'')"
proof -
  note T = empty_version_defaults [of "\<lparr>InputGetLexicon.Version = []\<rparr>" sampleURL sampleNet
      fetchTool sampleMode emptyWorld "\<lparr>InputGetSchemaDocs.Version = []\<rparr>" fetchTool]
  have a: "NewHTTPFetcher sampleURL (lexiconURLBuilder sampleMode) ''v0.19.1'' =
      Inr \<lparr>fetchURL = ''https://raw.githubusercontent.com/gemaraproj/gemara/v0.19.1/docs/lexicon.yaml'',
           MaxResponseBytes = 0\<rparr>"
    using T
    by (simp add: NewHTTPFetcher_def Build_def sampleURL_def sampleMode_def sampleParse_def
        sampleString_def lexiconPathSuffix_def Let_def)
  have b: "NewHTTPFetcher sampleURL (schemaDocsURLBuilder sampleMode) ''latest'' =
      Inr \<lparr>fetchURL = ''https://registry.cue.works/docs/github.com/gemaraproj/gemara@latest'',
           MaxResponseBytes = 0\<rparr>"
    using T
    by (simp add: NewHTTPFetcher_def Build_def sampleURL_def sampleMode_def sampleParse_def
        sampleString_def Let_def)
  from T show ?thesis
    by (simp add: a b fetchTool_def Fetch_miss NewCachedFetcher_def URL_def sampleNet_def
        emptyWorld_def Cache_Get_def NewCache_def)
qed

text \<open>
  Claim C10. A successful \<^verbatim>\<open>Fetch\<close> returns at most 4 MiB of body when
  \<^verbatim>\<open>MaxResponseBytes\<close> is zero or negative, and at most \<^verbatim>\<open>MaxResponseBytes\<close> bytes when it
  is positive: \<^verbatim>\<open>limitReader\<close> replaces a non-positive limit by the default.
\<close>

theorem response_size_cap:
  "(HTTPFetcher_Fetch H f = Inr (body, src) \<longrightarrow>
      int (length body) \<le>
        (if MaxResponseBytes f \<le> 0 then 4 * 1024 * 1024 else MaxResponseBytes f)) \<and>
   (MaxResponseBytes f \<le> 0 \<longrightarrow>
      limitReader r (MaxResponseBytes f) = LimitReader r (4 * 1024 * 1024)) \<and>
   (0 < MaxResponseBytes f \<longrightarrow>
      limitReader r (MaxResponseBytes f) = LimitReader r (MaxResponseBytes f))"
proof (intro conjI impI)
  have cap: "\<And>rd n b. 0 < n \<Longrightarrow> ReadAll (LimitReader rd n) = Inr b \<Longrightarrow> int (length b) \<le> n"
    by (auto simp: ReadAll_def LimitReader_def split: if_splits option.splits)
  show "int (length body) \<le>
        (if MaxResponseBytes f \<le> 0 then 4 * 1024 * 1024 else MaxResponseBytes f)"
    if "HTTPFetcher_Fetch H f = Inr (body, src)"
  proof -
    from that have "\<exists>rd. ReadAll (limitReader rd (MaxResponseBytes f)) = Inr body"
      by (auto simp: HTTPFetcher_Fetch_def split: option.splits sum.splits if_splits)
    then obtain rd where
      "ReadAll (limitReader rd (MaxResponseBytes f)) = Inr body" ..
    then show ?thesis
      using cap [of "if MaxResponseBytes f \<le> 0 then 4 * 1024 * 1024 else MaxResponseBytes f"
          rd body]
      by (simp add: limitReader_def defaultMaxResponseBytes_def split: if_splits)
  qed
  show "limitReader r (MaxResponseBytes f) = LimitReader r (4 * 1024 * 1024)"
    if "MaxResponseBytes f \<le> 0"
    using that by (simp add: limitReader_def defaultMaxResponseBytes_def)
  show "limitReader r (MaxResponseBytes f) = LimitReader r (MaxResponseBytes f)"
    if "0 < MaxResponseBytes f"
    using that by (simp add: limitReader_def)
qed

theorem response_size_cap_witness:
  "HTTPFetcher_Fetch okServer smallFetcher = Inr (''hel'', ''https://example.com/a/v1.2.3/b.yaml'') \<and>
   int (length ''hel'') \<le> 3 \<and>
   HTTPFetcher_Fetch okServer exampleFetcher =
     Inr (''hello'', ''https://example.com/a/v1.2.3/b.yaml'') \<and>
   int (length ''hello'') \<le> 4 * 1024 * 1024"
proof -
  have a: "HTTPFetcher_Fetch okServer smallFetcher =
      Inr (''hel'', ''https://example.com/a/v1.2.3/b.yaml'')"
    by (simp add: HTTPFetcher_Fetch_def okServer_def smallFetcher_def limitReader_def
        LimitReader_def ReadAll_def)
  have b: "HTTPFetcher_Fetch okServer exampleFetcher =
      Inr (''hello'', ''https://example.com/a/v1.2.3/b.yaml'')"
    by (simp add: HTTPFetcher_Fetch_def okServer_def exampleFetcher_def limitReader_def
        LimitReader_def ReadAll_def defaultMaxResponseBytes_def)
  from response_size_cap [THEN conjunct1, rule_format, OF a]
    response_size_cap [THEN conjunct1, rule_format, OF b] a b
  show ?thesis by (simp add: smallFetcher_def exampleFetcher_def)
qed

end
